theory Spec2Isabelle
  imports
    Complex_Main
    "HOL-Library.Char_ord"
    "HOL-Library.List_Lexorder"
    "HOL-Library.Product_Lexorder"
begin

section \<open>Symbols, errors and Python containers\<close>

text \<open>
  The keys and free symbols of a model are \<open>Variable\<close>s, \<open>Parameter\<close>s and derivative
  markers \<open>D(y, a, ...)\<close>. A derivative marker holds the differentiated symbol
  (\<open>.expr\<close>) and the tuple of differentiation variables (\<open>.variables\<close>).
\<close>

datatype symbol =
    Variable string
  | Parameter string
  | Derivative symbol "symbol list"

text \<open>The exceptions the modelled code can raise; \<open>Inl\<close> of a sum is a raised exception.\<close>

datatype error =
    ModelError
  | CircularDependencyError
  | TypeError
  | ValueError
  | IndexError
  | KeyError
  | AttributeError
  | NameError

fun isinstance_Parameter :: "symbol \<Rightarrow> bool" where
  "isinstance_Parameter (Parameter n) = True"
| "isinstance_Parameter _ = False"

fun isinstance_Derivative :: "symbol \<Rightarrow> bool" where
  "isinstance_Derivative (Derivative e vs) = True"
| "isinstance_Derivative _ = False"

text \<open>\<open>str(symbol)\<close>: a \<open>Variable\<close> or \<open>Parameter\<close> prints as its name, a derivative
  marker as \<open>Derivative(y, a, ...)\<close>.\<close>

fun str :: "symbol \<Rightarrow> string" where
  "str (Variable n) = n"
| "str (Parameter n) = n"
| "str (Derivative e vs) =
     ''Derivative('' @ str e @ concat (map (\<lambda>v. '', '' @ str v) vs) @ '')''"

text \<open>\<open>symbol.name\<close>. For a derivative marker the attribute is added by the support
  module, which is not among the sources: it is modelled as \<open>d<expr>_d<var>d<var>...\<close>.\<close>

fun name :: "symbol \<Rightarrow> string" where
  "name (Variable n) = n"
| "name (Parameter n) = n"
| "name (Derivative e vs) = ''d'' @ name e @ ''_'' @ concat (map (\<lambda>v. ''d'' @ name v) vs)"

text \<open>\<open>.free_symbols\<close>, a Python set, as a list without duplicates. The free symbols of
  a derivative are those of the expression that is differentiated.\<close>

fun free_symbols :: "symbol \<Rightarrow> symbol list" where
  "free_symbols (Variable n) = [Variable n]"
| "free_symbols (Parameter n) = [Parameter n]"
| "free_symbols (Derivative e vs) = free_symbols e"

text \<open>\<open>d.variables\<close>: only a derivative has the attribute.\<close>

fun variables :: "symbol \<Rightarrow> error + symbol list" where
  "variables (Derivative e vs) = Inr vs"
| "variables _ = Inl AttributeError"

text \<open>Running a fallible function over a list stops at the first exception.\<close>

fun mapM :: "('a \<Rightarrow> error + 'b) \<Rightarrow> 'a list \<Rightarrow> error + 'b list" where
  "mapM f [] = Inr []"
| "mapM f (x # xs) =
     (case f x of
        Inl e \<Rightarrow> Inl e
      | Inr y \<Rightarrow> (case mapM f xs of Inl e \<Rightarrow> Inl e | Inr ys \<Rightarrow> Inr (y # ys)))"

text \<open>\<open>d[k]\<close> on a dict held as an association list.\<close>

definition lookup :: "('k \<times> 'v) list \<Rightarrow> 'k \<Rightarrow> error + 'v" where
  "lookup d k = (case map_of d k of None \<Rightarrow> Inl KeyError | Some v \<Rightarrow> Inr v)"

section \<open>The call signature\<close>

text \<open>
  \<open>_make_signature\<close> builds an \<open>inspect.Signature\<close> of positional-or-keyword parameters,
  one per independent variable and then one per parameter, none with a default. The
  signature is the list of their names; \<open>inspect.Signature\<close> refuses a repeated name with
  \<open>ValueError\<close>.
\<close>

definition make_signature :: "symbol list \<Rightarrow> symbol list \<Rightarrow> error + string list" where
  "make_signature independent_vars params =
     (let parameters = map name (independent_vars @ params)
      in if distinct parameters then Inr parameters else Inl ValueError)"

section \<open>Models\<close>

text \<open>
  The attributes \<open>_init_from_dict\<close> and \<open>ODEModel.__init__\<close> set on a model. The
  expressions are of an arbitrary type \<open>'e\<close>; their free symbols are read by
  \<open>seperate_symbols\<close>, a function of the support module that the models take as an
  argument (it returns the variables and the parameters of an expression).
\<close>

record 'e Model =
  model_dict :: "(symbol \<times> 'e) list"
  independent_vars :: "symbol list"
  dependent_vars :: "symbol list"
  interdependent_vars :: "symbol list"
  params :: "symbol list"
  sigmas :: "(symbol \<times> symbol) list"
  signature :: "string list"

record ('e, 'v) ODEModel = "'e Model" +
  initial :: "(symbol \<times> 'v) list"
  dependent_derivatives :: "(symbol \<times> symbol) list"

section \<open>ODEModel: construction and indexing\<close>

text \<open>\<open>list(d.free_symbols - set(d.variables))[0]\<close>\<close>

definition dependent_of :: "symbol \<Rightarrow> error + symbol" where
  "dependent_of d =
     (case variables d of
        Inl e \<Rightarrow> Inl e
      | Inr vs \<Rightarrow>
          (case filter (\<lambda>s. s \<notin> set vs) (free_symbols d) of
             [] \<Rightarrow> Inl IndexError
           | y # _ \<Rightarrow> Inr y))"

text \<open>\<open>d.variables[0]\<close>\<close>

definition independent_of :: "symbol \<Rightarrow> error + symbol" where
  "independent_of d =
     (case variables d of
        Inl e \<Rightarrow> Inl e
      | Inr vs \<Rightarrow> (case vs of [] \<Rightarrow> Inl IndexError | x # _ \<Rightarrow> Inr x))"

text \<open>
  \<open>ODEModel.__init__(model_dict, initial)\<close>. The order of the source is kept: the
  mapping from derivatives to dependent variables, the sorted dependent variables, the
  sorted set of independent variables, the check on their number, the sorted
  \<open>model_dict\<close>, the parameters of all right-hand sides, the sigmas and the signature.
\<close>

definition ODEModel_init ::
  "('e \<Rightarrow> symbol list \<times> symbol list) \<Rightarrow> (symbol \<times> 'e) list \<Rightarrow> (symbol \<times> 'v) list
     \<Rightarrow> error + ('e, 'v) ODEModel" where
  "ODEModel_init seperate_symbols md init =
     (case mapM dependent_of (map fst md) of
        Inl e \<Rightarrow> Inl e
      | Inr deps \<Rightarrow>
     (case mapM independent_of (map fst md) of
        Inl e \<Rightarrow> Inl e
      | Inr indeps \<Rightarrow>
          let dd = zip (map fst md) deps;
              dvs = sort_key str deps;
              ivs = sort_key str (remdups indeps)
          in if \<not> (length ivs \<noteq> 0) then Inl ModelError
             else
               (case mapM (\<lambda>i. lookup dd (fst i)) md of
                  Inl e \<Rightarrow> Inl e
                | Inr keys \<Rightarrow>
                    let smd = map snd (sort_key (\<lambda>p. str (fst p)) (zip keys md));
                        ps = sort_key str (remdups (concat (map (\<lambda>i. snd (seperate_symbols (snd i))) md)))
                    in (case make_signature ivs ps of
                          Inl e \<Rightarrow> Inl e
                        | Inr sg \<Rightarrow>
                            Inr \<lparr> model_dict = smd,
                                  independent_vars = ivs,
                                  dependent_vars = dvs,
                                  interdependent_vars = [],
                                  params = ps,
                                  sigmas = map (\<lambda>v. (v, Variable (''sigma_'' @ name v))) dvs,
                                  signature = sg,
                                  initial = init,
                                  dependent_derivatives = dd \<rparr>))))"

text \<open>
  \<open>ODEModel.__getitem__\<close>: the loop over \<open>model_dict.items()\<close> returns the first
  right-hand side whose derivative belongs to \<open>dependent_var\<close>; when the loop ends
  without a match the method falls off its end, which returns \<open>None\<close>.
\<close>

fun getitem_loop ::
  "(symbol \<times> symbol) list \<Rightarrow> (symbol \<times> 'e) list \<Rightarrow> symbol \<Rightarrow> error + 'e option" where
  "getitem_loop dd [] dependent_var = Inr None"
| "getitem_loop dd ((d, f) # items) dependent_var =
     (case lookup dd d of
        Inl e \<Rightarrow> Inl e
      | Inr y \<Rightarrow> if dependent_var = y then Inr (Some f) else getitem_loop dd items dependent_var)"

definition ODEModel_getitem :: "('e, 'v) ODEModel \<Rightarrow> symbol \<Rightarrow> error + 'e option" where
  "ODEModel_getitem m dependent_var =
     getitem_loop (dependent_derivatives m) (model_dict m) dependent_var"

section \<open>Topological sorting\<close>

text \<open>
  \<open>toposort\<close> of the package of the same name, which the models import. Its argument is
  a dict from an item to the set of items it depends on, here an association list from an
  item to a list. The function returns at once on an empty dict; otherwise it ignores
  the dependency of an item on itself, gives every item that only occurs as a dependency
  an empty set of its own, and then repeatedly yields the set of items with no
  dependency left and removes them from the dict and from the remaining sets. When no
  such item is left and the dict is not empty, it raises \<open>CircularDependencyError\<close>.
  The generator is always run to its end by the callers below, so the result is either
  the list of all yielded sets or the exception.
\<close>

definition discard_self :: "('a \<times> 'a list) list \<Rightarrow> ('a \<times> 'a list) list" where
  "discard_self data = map (\<lambda>(k, v). (k, removeAll k v)) data"

definition extra_items_in_deps :: "('a \<times> 'a list) list \<Rightarrow> 'a list" where
  "extra_items_in_deps data =
     filter (\<lambda>i. i \<notin> set (map fst data)) (remdups (concat (map snd data)))"

definition add_extra_items :: "('a \<times> 'a list) list \<Rightarrow> ('a \<times> 'a list) list" where
  "add_extra_items data = data @ map (\<lambda>item. (item, [])) (extra_items_in_deps data)"

definition no_dependencies :: "('a \<times> 'a list) list \<Rightarrow> 'a list" where
  "no_dependencies data = map fst (filter (\<lambda>(item, dep). length dep = 0) data)"

definition remove_ordered :: "'a list \<Rightarrow> ('a \<times> 'a list) list \<Rightarrow> ('a \<times> 'a list) list" where
  "remove_ordered ordered data =
     map (\<lambda>(item, dep). (item, filter (\<lambda>d. d \<notin> set ordered) dep))
       (filter (\<lambda>(item, dep). item \<notin> set ordered) data)"

function toposort_loop :: "('a \<times> 'a list) list \<Rightarrow> error + 'a list list" where
  "toposort_loop data =
     (let ordered = no_dependencies data
      in if ordered = [] then
           (if length data \<noteq> 0 then Inl CircularDependencyError else Inr [])
         else
           (case toposort_loop (remove_ordered ordered data) of
              Inl e \<Rightarrow> Inl e
            | Inr rest \<Rightarrow> Inr (ordered # rest)))"
  by pat_completeness auto
termination
proof (relation "measure length")
  show "wf (measure length)" by simp
next
  fix data :: "('a \<times> 'a list) list" and ordered
  assume o: "ordered = no_dependencies data" and ne: "ordered \<noteq> []"
  from ne obtain x where "x \<in> set ordered" by (cases ordered) auto
  with o obtain dep where "(x, dep) \<in> set data" "\<not> (\<lambda>(item, dep). item \<notin> set ordered) (x, dep)"
    by (auto simp: no_dependencies_def)
  then have "length (filter (\<lambda>(item, dep). item \<notin> set ordered) data) < length data"
    by (meson length_filter_less)
  then show "(remove_ordered ordered data, data) \<in> measure length"
    by (simp add: remove_ordered_def)
qed

definition toposort :: "('a \<times> 'a list) list \<Rightarrow> error + 'a list list" where
  "toposort data =
     (if length data = 0 then Inr []
      else toposort_loop (add_extra_items (discard_self data)))"

section \<open>BaseModel: construction and the order of evaluation\<close>

text \<open>\<open>connectivity_mapping\<close>: every key of the model with the set of the variables and
  parameters of its expression.\<close>

definition connectivity_mapping ::
  "('e \<Rightarrow> symbol list \<times> symbol list) \<Rightarrow> (symbol \<times> 'e) list \<Rightarrow> (symbol \<times> symbol list) list" where
  "connectivity_mapping seperate_symbols md =
     map (\<lambda>(var, expr). (var, remdups (fst (seperate_symbols expr) @ snd (seperate_symbols expr)))) md"

text \<open>\<open>ordered.pop(0)\<close> and \<open>ordered.pop(-1)\<close> raise \<open>IndexError\<close> on an empty list.\<close>

definition pop_first :: "'a list \<Rightarrow> error + ('a \<times> 'a list)" where
  "pop_first xs = (case xs of [] \<Rightarrow> Inl IndexError | x # rest \<Rightarrow> Inr (x, rest))"

definition pop_last :: "'a list \<Rightarrow> error + ('a \<times> 'a list)" where
  "pop_last xs = (if xs = [] then Inl IndexError else Inr (last xs, butlast xs))"

text \<open>
  \<open>BaseModel._init_from_dict\<close>, followed by the signature that
  \<open>BaseCallableModel._init_from_dict\<close> adds. The bottom set of the topological sort
  holds the independent symbols, the top set the dependent variables, the sets between
  them the interdependent variables.
\<close>

definition init_from_dict ::
  "('e \<Rightarrow> symbol list \<times> symbol list) \<Rightarrow> (symbol \<times> 'e) list \<Rightarrow> error + 'e Model" where
  "init_from_dict seperate_symbols md =
     (let smd = sort_key (\<lambda>i. name (fst i)) md
      in case toposort (connectivity_mapping seperate_symbols smd) of
           Inl e \<Rightarrow> Inl e
         | Inr ordered \<Rightarrow>
        (case pop_first ordered of
           Inl e \<Rightarrow> Inl e
         | Inr (first_set, ordered1) \<Rightarrow>
        (case pop_last ordered1 of
           Inl e \<Rightarrow> Inl e
         | Inr (last_set, ordered2) \<Rightarrow>
             let independent = sort_key name first_set;
                 dvs = sort_key name last_set;
                 ps = filter isinstance_Parameter independent;
                 ivs = filter (\<lambda>s. \<not> isinstance_Parameter s \<and> s \<notin> set (map fst smd)) independent
             in (case make_signature ivs ps of
                   Inl e \<Rightarrow> Inl e
                 | Inr sg \<Rightarrow>
                     Inr \<lparr> model_dict = smd,
                           independent_vars = ivs,
                           dependent_vars = dvs,
                           interdependent_vars = sort_key name (concat ordered2),
                           params = ps,
                           sigmas = map (\<lambda>v. (v, Variable (''sigma_'' @ name v))) dvs,
                           signature = sg \<rparr>))))"

text \<open>\<open>s.derivative_count\<close> and the sort key of \<open>ordered_symbols\<close>. The key of the source
  is the list \<open>[isinstance(s, Derivative), isinstance(s, Derivative) and s.derivative_count]\<close>,
  compared as Python compares lists; the pair below is ordered the same way.\<close>

fun derivative_count :: "symbol \<Rightarrow> nat" where
  "derivative_count (Derivative e vs) = length vs"
| "derivative_count _ = 0"

definition key_func :: "symbol \<Rightarrow> bool \<times> nat" where
  "key_func s = (isinstance_Derivative s, if isinstance_Derivative s then derivative_count s else 0)"

definition ordered_symbols ::
  "('e \<Rightarrow> symbol list \<times> symbol list) \<Rightarrow> 'e Model \<Rightarrow> error + symbol list" where
  "ordered_symbols seperate_symbols m =
     (case toposort (connectivity_mapping seperate_symbols (model_dict m)) of
        Inl e \<Rightarrow> Inl e
      | Inr layers \<Rightarrow> Inr (concat (map (sort_key key_func) layers)))"

text \<open>\<open>list.index\<close>: the position of the first occurrence.\<close>

definition index_of :: "'a list \<Rightarrow> 'a \<Rightarrow> nat" where
  "index_of xs x = length (takeWhile (\<lambda>y. y \<noteq> x) xs)"

text \<open>The dependency graph of a connectivity mapping: an edge from each dependency to the
  symbol that depends on it.\<close>

definition dependency_graph :: "('a \<times> 'a list) list \<Rightarrow> ('a \<times> 'a) set" where
  "dependency_graph data = {(d, v). \<exists>deps. (v, deps) \<in> set data \<and> d \<in> set deps}"

section \<open>BaseCallableModel: binding the arguments and evaluating\<close>

text \<open>
  \<open>inspect.Signature.bind(*args, **kwargs)\<close> for a signature of positional-or-keyword
  parameters without defaults: too many positional arguments, a parameter left without
  a value, a parameter given both by position and by keyword, and a keyword that is not
  a parameter each raise \<open>TypeError\<close>. \<open>kwargs\<close> is a dict, held as an association
  list.
\<close>

definition bind :: "string list \<Rightarrow> 'v list \<Rightarrow> (string \<times> 'v) list \<Rightarrow> error + (string \<rightharpoonup> 'v)" where
  "bind sg args kwargs =
     (if length sg < length args then Inl TypeError
      else if \<exists>n \<in> set (drop (length args) sg). n \<notin> set (map fst kwargs) then Inl TypeError
      else if \<exists>k \<in> set (map fst kwargs). k \<in> set (take (length args) sg) then Inl TypeError
      else if \<exists>k \<in> set (map fst kwargs). k \<notin> set sg then Inl TypeError
      else Inr (map_of (zip sg args @ kwargs)))"

text \<open>Values are scalars or one-dimensional arrays; \<open>np.atleast_1d\<close> turns a scalar into
  an array of one element.\<close>

datatype 'a ndarray = Scalar 'a | Array "'a list"

fun atleast_1d :: "'a ndarray \<Rightarrow> 'a ndarray" where
  "atleast_1d (Scalar x) = Array [x]"
| "atleast_1d (Array xs) = Array xs"

definition lookup_kwargs :: "(string \<rightharpoonup> 'v) \<Rightarrow> string \<Rightarrow> error + 'v" where
  "lookup_kwargs kwargs n = (case kwargs n of None \<Rightarrow> Inl KeyError | Some v \<Rightarrow> Inr v)"

text \<open>
  The loop of \<open>eval_components\<close> over \<open>ordered_symbols\<close>: a symbol whose name is not
  yet in \<open>kwargs\<close> is computed by its component from the values of its dependencies,
  passed by name, and stored under its own name. A numerical component is a callable
  taking keyword arguments; it returns a value or raises.
\<close>

fun eval_loop ::
  "(symbol \<times> symbol list) list \<Rightarrow> (symbol \<times> ((string \<rightharpoonup> 'v) \<Rightarrow> error + 'v)) list \<Rightarrow> symbol list
     \<Rightarrow> (string \<rightharpoonup> 'v) \<Rightarrow> error + (string \<rightharpoonup> 'v)" where
  "eval_loop conn components [] kwargs = Inr kwargs"
| "eval_loop conn components (s # symbols) kwargs =
     (if kwargs (name s) = None then
        (case lookup conn s of
           Inl e \<Rightarrow> Inl e
         | Inr dependencies \<Rightarrow>
        (case mapM (\<lambda>d. lookup_kwargs kwargs (name d)) dependencies of
           Inl e \<Rightarrow> Inl e
         | Inr vals \<Rightarrow>
        (case lookup components s of
           Inl e \<Rightarrow> Inl e
         | Inr c \<Rightarrow>
        (case c (map_of (zip (map name dependencies) vals)) of
           Inl e \<Rightarrow> Inl e
         | Inr val \<Rightarrow> eval_loop conn components symbols (kwargs(name s \<mapsto> val))))))
      else eval_loop conn components symbols kwargs)"

definition eval_components ::
  "('e \<Rightarrow> symbol list \<times> symbol list) \<Rightarrow> 'e Model
     \<Rightarrow> ((string \<rightharpoonup> 'a ndarray) \<Rightarrow> error + 'a ndarray) list
     \<Rightarrow> 'a ndarray list \<Rightarrow> (string \<times> 'a ndarray) list \<Rightarrow> error + 'a ndarray list" where
  "eval_components seperate_symbols m numerical_components args kwargs =
     (case bind (signature m) args kwargs of
        Inl e \<Rightarrow> Inl e
      | Inr bound \<Rightarrow>
     (case ordered_symbols seperate_symbols m of
        Inl e \<Rightarrow> Inl e
      | Inr symbols \<Rightarrow>
     (case eval_loop (connectivity_mapping seperate_symbols (model_dict m))
             (zip (map fst (model_dict m)) numerical_components) symbols bound of
        Inl e \<Rightarrow> Inl e
      | Inr final \<Rightarrow>
          (case mapM (\<lambda>var. lookup_kwargs final (name var)) (map fst (model_dict m)) of
             Inl e \<Rightarrow> Inl e
           | Inr vals \<Rightarrow> Inr (map atleast_1d vals)))))"

declare toposort_loop.simps [simp del]

text \<open>A dict in which every dependency is itself a key, as \<open>toposort\<close> makes its
  argument before the loop starts.\<close>

definition closed_data :: "('a \<times> 'a list) list \<Rightarrow> bool" where
  "closed_data data = (\<forall>(v, deps) \<in> set data. set deps \<subseteq> set (map fst data))"

text \<open>The dict the loop of \<open>toposort\<close> starts from.\<close>

definition prepared :: "('a \<times> 'a list) list \<Rightarrow> ('a \<times> 'a list) list" where
  "prepared data = add_extra_items (discard_self data)"

text \<open>A symbol without dependencies: it is not a key of the connectivity mapping, or its
  set of dependencies is empty.\<close>

definition has_no_dependencies :: "('a \<times> 'a list) list \<Rightarrow> 'a \<Rightarrow> bool" where
  "has_no_dependencies conn s = (case map_of conn s of None \<Rightarrow> True | Some deps \<Rightarrow> deps = [])"

text \<open>The model \<open>{y: a*x, z: y**2 + a}\<close>, each expression given by its variables and its
  parameters.\<close>

definition chain_model :: "(symbol list \<times> symbol list) Model" where
  "chain_model =
     \<lparr> model_dict = [(Variable ''y'', ([Variable ''x''], [Parameter ''a''])),
                      (Variable ''z'', ([Variable ''y''], [Parameter ''a'']))],
       independent_vars = [Variable ''x''],
       dependent_vars = [Variable ''z''],
       interdependent_vars = [Variable ''y''],
       params = [Parameter ''a''],
       sigmas = [(Variable ''z'', Variable ''sigma_z'')],
       signature = [''x'', ''a''] \<rparr>"




text \<open>
  The time axis of a call: \<open>t_like\<close> is used as it is when it can be indexed, and wrapped
  into an array of one element when it is a scalar. (An empty array is wrapped as well
  and then holds no time point at all.)
\<close>

fun time_axis :: "'a ndarray \<Rightarrow> 'a list" where
  "time_axis (Scalar t) = [t]"
| "time_axis (Array ts) = ts"

text \<open>\<open>ans.T\<close> for an array with one row per time point and \<open>n\<close> columns, one per
  dependent variable: the result has one row per dependent variable.\<close>

definition transposed :: "nat \<Rightarrow> 'a list list \<Rightarrow> 'a list list" where
  "transposed n rows = map (\<lambda>i. map (\<lambda>row. row ! i) rows) [0..<n]"

text \<open>\<open>ans[t_total != t_initial]\<close>: indexing with a boolean mask keeps the rows where the
  mask is true; a mask of another length than the array raises \<open>IndexError\<close>.\<close>

definition mask_rows :: "'b list \<Rightarrow> bool list \<Rightarrow> error + 'b list" where
  "mask_rows rows keep =
     (if length rows \<noteq> length keep then Inl IndexError
      else Inr (map fst (filter snd (zip rows keep))))"

text \<open>
  \<open>ODEModel.eval_components\<close>. The integrator \<open>odeint\<close> of SciPy is an argument: it is
  given the model, whose right-hand sides and their derivatives make up the callables
  \<open>f\<close> and \<open>Dfun\<close> of the source, the initial state, the time points, of which the
  first is the initial time, and the values of the parameters; it returns one row per
  time point.
\<close>

definition ODEModel_eval_components ::
  "(('e, 'a) ODEModel \<Rightarrow> 'a list \<Rightarrow> 'a list \<Rightarrow> 'a ndarray list \<Rightarrow> 'a list list)
     \<Rightarrow> ('e, 'a::linorder) ODEModel \<Rightarrow> 'a ndarray list \<Rightarrow> (string \<times> 'a ndarray) list
     \<Rightarrow> error + 'a list list" where
  "ODEModel_eval_components odeint m args kwargs =
     (case bind (signature m) args kwargs of
        Inl e \<Rightarrow> Inl e
      | Inr bound \<Rightarrow>
     (case independent_vars m of
        [] \<Rightarrow> Inl IndexError
      | iv # _ \<Rightarrow>
     (case lookup_kwargs bound (name iv) of
        Inl e \<Rightarrow> Inl e
      | Inr t_like0 \<Rightarrow>
     (case mapM (lookup (initial m)) (dependent_vars m) of
        Inl e \<Rightarrow> Inl e
      | Inr initial_dependent \<Rightarrow>
     (case lookup (initial m) iv of
        Inl e \<Rightarrow> Inl e
      | Inr t_initial \<Rightarrow>
     (case mapM (\<lambda>param. lookup_kwargs bound (name param)) (params m) of
        Inl e \<Rightarrow> Inl e
      | Inr param_vals \<Rightarrow>
          let t_like = time_axis t_like0;
              t_bigger = (if t_initial \<in> set t_like
                          then filter (\<lambda>t. t \<ge> t_initial) t_like
                          else [t_initial] @ filter (\<lambda>t. t > t_initial) t_like);
              t_smaller = (if t_initial \<in> set t_like
                           then rev (filter (\<lambda>t. t \<le> t_initial) t_like)
                           else [t_initial] @ rev (filter (\<lambda>t. t < t_initial) t_like));
              t_total = butlast (rev t_smaller) @ t_bigger;
              ans_bigger = odeint m initial_dependent t_bigger param_vals;
              ans_smaller = odeint m initial_dependent t_smaller param_vals;
              ans = rev (drop 1 ans_smaller) @ ans_bigger
          in if t_initial \<in> set t_like
             then Inr (transposed (length initial_dependent) ans)
             else (case mask_rows ans (map (\<lambda>t. t \<noteq> t_initial) t_total) of
                     Inl e \<Rightarrow> Inl e
                   | Inr kept \<Rightarrow> Inr (transposed (length initial_dependent) kept))))))))"

text \<open>An integrator that is exact for the model, the initial state and the parameter
  values at hand: started at the initial time on an ascending or a descending time axis,
  it returns the value of the trajectory \<open>\<phi>\<close> at each time point.\<close>

definition exact_on ::
  "(('e, 'a) ODEModel \<Rightarrow> 'a list \<Rightarrow> 'a list \<Rightarrow> 'a ndarray list \<Rightarrow> 'a list list)
     \<Rightarrow> ('e, 'a::linorder) ODEModel \<Rightarrow> 'a list \<Rightarrow> 'a \<Rightarrow> 'a ndarray list \<Rightarrow> ('a \<Rightarrow> 'a list) \<Rightarrow> bool" where
  "exact_on odeint m y0 t0 a \<phi> =
     (\<forall>ts. ts \<noteq> [] \<and> hd ts = t0 \<and> (sorted ts \<or> sorted (rev ts)) \<longrightarrow> odeint m y0 ts a = map \<phi> ts)"

text \<open>The exact integrator of \<open>dy/dx = a\<close>, each dependent variable with the one parameter
  \<open>a\<close> as its derivative: from the state \<open>y0\<close> at the first time point, the state at
  \<open>t\<close> is \<open>y0 + a * (t - t[0])\<close>.\<close>

fun linear_odeint ::
  "('e, int) ODEModel \<Rightarrow> int list \<Rightarrow> int list \<Rightarrow> int ndarray list \<Rightarrow> int list list" where
  "linear_odeint m y0 ts [Scalar a] = map (\<lambda>t. map (\<lambda>y. y + a * (t - hd ts)) y0) ts"
| "linear_odeint m y0 ts _ = []"

text \<open>The model \<open>dy/dx = a\<close> with \<open>y(0) = 1\<close>, as \<open>ODEModel.__init__\<close> builds it.\<close>

definition linear_ode :: "(string, int) ODEModel" where
  "linear_ode =
     \<lparr> model_dict = [(Derivative (Variable ''y'') [Variable ''x''], ''a'')],
       independent_vars = [Variable ''x''],
       dependent_vars = [Variable ''y''],
       interdependent_vars = [],
       params = [Parameter ''a''],
       sigmas = [(Variable ''y'', Variable ''sigma_y'')],
       signature = [''x'', ''a''],
       initial = [(Variable ''x'', 0), (Variable ''y'', 1)],
       dependent_derivatives = [(Derivative (Variable ''y'') [Variable ''x''], Variable ''y'')] \<rparr>"

section \<open>Expressions\<close>

text \<open>
  The expressions of SymPy that the models are built from: symbols (a derivative marker
  \<open>D(y, a)\<close> of a symbol is a symbol as well), integers, sums, products, powers with a
  natural exponent, the sine and the cosine, an undefined function applied to
  arguments, \<open>y(x, a)\<close>, and the unevaluated derivative of such an application.
\<close>

datatype expr =
    Symbol symbol
  | Integer int
  | Add expr expr
  | Mul expr expr
  | Pow expr nat
  | Sin expr
  | Cos expr
  | AppliedUndef string "expr list"
  | Deriv expr "symbol list"

text \<open>\<open>expr.free_symbols\<close>\<close>

fun expr_free_symbols :: "expr \<Rightarrow> symbol list" where
  "expr_free_symbols (Symbol s) = free_symbols s"
| "expr_free_symbols (Integer n) = []"
| "expr_free_symbols (Add a b) = remdups (expr_free_symbols a @ expr_free_symbols b)"
| "expr_free_symbols (Mul a b) = remdups (expr_free_symbols a @ expr_free_symbols b)"
| "expr_free_symbols (Pow a n) = expr_free_symbols a"
| "expr_free_symbols (Sin a) = expr_free_symbols a"
| "expr_free_symbols (Cos a) = expr_free_symbols a"
| "expr_free_symbols (AppliedUndef f args) = remdups (concat (map expr_free_symbols args))"
| "expr_free_symbols (Deriv e vs) = expr_free_symbols e"

text \<open>\<open>expr.atoms(sympy.Derivative)\<close>: the derivative markers that occur in an expression.\<close>

fun derivative_atoms :: "expr \<Rightarrow> symbol list" where
  "derivative_atoms (Symbol s) = (if isinstance_Derivative s then [s] else [])"
| "derivative_atoms (Integer n) = []"
| "derivative_atoms (Add a b) = remdups (derivative_atoms a @ derivative_atoms b)"
| "derivative_atoms (Mul a b) = remdups (derivative_atoms a @ derivative_atoms b)"
| "derivative_atoms (Pow a n) = derivative_atoms a"
| "derivative_atoms (Sin a) = derivative_atoms a"
| "derivative_atoms (Cos a) = derivative_atoms a"
| "derivative_atoms (AppliedUndef f args) = remdups (concat (map derivative_atoms args))"
| "derivative_atoms (Deriv e vs) = derivative_atoms e"

fun derivative_expr :: "symbol \<Rightarrow> symbol" where
  "derivative_expr (Derivative e vs) = e"
| "derivative_expr s = s"

fun derivative_variables :: "symbol \<Rightarrow> symbol list" where
  "derivative_variables (Derivative e vs) = vs"
| "derivative_variables s = []"

text \<open>
  Modelled from the spec: \<open>seperate_symbols\<close> of the support module, which is not among
  the sources. It extracts the free variables and the free parameters of an expression,
  each list sorted by name; a derivative marker of a variable of the expression with
  respect to parameters counts as a variable.
\<close>

definition seperate_symbols :: "expr \<Rightarrow> symbol list \<times> symbol list" where
  "seperate_symbols func =
     (let params = filter isinstance_Parameter (expr_free_symbols func);
          vars = filter (\<lambda>s. \<not> isinstance_Parameter s) (expr_free_symbols func);
          ders = filter (\<lambda>der. derivative_expr der \<in> set vars
                               \<and> (\<forall>s \<in> set (derivative_variables der). isinstance_Parameter s))
                   (derivative_atoms func)
      in (sort_key name (vars @ ders), sort_key name params))"

section \<open>Numerical evaluation\<close>

text \<open>
  NumPy arithmetic on scalars and one-dimensional arrays: a scalar, or an array of one
  element, is broadcast against an array; two arrays of different lengths, neither of
  them of length one, raise \<open>ValueError\<close>.
\<close>

fun broadcast :: "('a \<Rightarrow> 'a \<Rightarrow> 'a) \<Rightarrow> 'a ndarray \<Rightarrow> 'a ndarray \<Rightarrow> error + 'a ndarray" where
  "broadcast f (Scalar a) (Scalar b) = Inr (Scalar (f a b))"
| "broadcast f (Scalar a) (Array ys) = Inr (Array (map (f a) ys))"
| "broadcast f (Array xs) (Scalar b) = Inr (Array (map (\<lambda>x. f x b) xs))"
| "broadcast f (Array xs) (Array ys) =
     (if length xs = length ys then Inr (Array (map (\<lambda>(x, y). f x y) (zip xs ys)))
      else if length xs = 1 then Inr (Array (map (f (hd xs)) ys))
      else if length ys = 1 then Inr (Array (map (\<lambda>x. f x (hd ys)) xs))
      else Inl ValueError)"

text \<open>
  Modelled from the spec: \<open>sympy_to_py\<close> of the support module, the numeric compiler. The
  compiled callable takes its arguments by name and evaluates the expression tree; a
  derivative marker is an argument like any other symbol, under its name. A symbol
  without a value and an undefined function have no value: the call raises.
\<close>

fun eval_expr :: "(string \<rightharpoonup> real ndarray) \<Rightarrow> expr \<Rightarrow> error + real ndarray" where
  "eval_expr kwargs (Symbol s) = lookup_kwargs kwargs (name s)"
| "eval_expr kwargs (Integer n) = Inr (Scalar (of_int n))"
| "eval_expr kwargs (Add a b) =
     (case eval_expr kwargs a of Inl e \<Rightarrow> Inl e | Inr u \<Rightarrow>
     (case eval_expr kwargs b of Inl e \<Rightarrow> Inl e | Inr v \<Rightarrow> broadcast (+) u v))"
| "eval_expr kwargs (Mul a b) =
     (case eval_expr kwargs a of Inl e \<Rightarrow> Inl e | Inr u \<Rightarrow>
     (case eval_expr kwargs b of Inl e \<Rightarrow> Inl e | Inr v \<Rightarrow> broadcast (*) u v))"
| "eval_expr kwargs (Pow a n) =
     (case eval_expr kwargs a of Inl e \<Rightarrow> Inl e | Inr u \<Rightarrow> Inr (map_ndarray (\<lambda>x. x ^ n) u))"
| "eval_expr kwargs (Sin a) =
     (case eval_expr kwargs a of Inl e \<Rightarrow> Inl e | Inr u \<Rightarrow> Inr (map_ndarray sin u))"
| "eval_expr kwargs (Cos a) =
     (case eval_expr kwargs a of Inl e \<Rightarrow> Inl e | Inr u \<Rightarrow> Inr (map_ndarray cos u))"
| "eval_expr kwargs (AppliedUndef f args) = Inl NameError"
| "eval_expr kwargs (Deriv e vs) = Inl NameError"

section \<open>Equality of models\<close>

text \<open>
  \<open>a is not b\<close> for two lengths. \<open>is not\<close> compares the identity of the two int
  objects, not their values: CPython keeps one object for each int up to 256, so that
  equal lengths up to 256 are the same object, and returns a new object from every
  call of \<open>len\<close> with a larger result.
\<close>

definition is_not :: "nat \<Rightarrow> nat \<Rightarrow> bool" where
  "is_not a b = (a \<noteq> b \<or> 256 < a)"

text \<open>
  \<open>BaseModel.__eq__\<close>. The loop runs over \<open>zip(self, other)\<close>, the keys of the two models
  in the order of their \<open>model_dict\<close>; \<open>self[var_1]\<close> is the expression stored with the
  key. \<open>expand\<close> is SymPy's and an argument here; \<open>==\<close> on two expanded expressions
  is the structural equality of SymPy. When the loop ends without a return, its
  \<open>else\<close> branch returns \<open>True\<close>.
\<close>

fun eq_loop :: "('e \<Rightarrow> 'e) \<Rightarrow> (symbol \<times> 'e) list \<Rightarrow> (symbol \<times> 'e) list \<Rightarrow> bool" where
  "eq_loop expand ((var_1, e1) # rest1) ((var_2, e2) # rest2) =
     (if var_1 \<noteq> var_2 then False
      else if \<not> (expand e1 = expand e2) then False
      else eq_loop expand rest1 rest2)"
| "eq_loop expand _ _ = True"

definition BaseModel_eq :: "('e \<Rightarrow> 'e) \<Rightarrow> 'e Model \<Rightarrow> 'e Model \<Rightarrow> bool" where
  "BaseModel_eq expand self other =
     (if is_not (length (model_dict self)) (length (model_dict other)) then False
      else eq_loop expand (model_dict self) (model_dict other))"

text \<open>
  A model of \<open>expr.expand()\<close> on the expressions above: products of sums and powers of
  sums are multiplied out, in the arguments of functions as well.
\<close>

fun distribute :: "expr \<Rightarrow> expr \<Rightarrow> expr" where
  "distribute (Add a b) c = Add (distribute a c) (distribute b c)"
| "distribute a (Add b c) = Add (distribute a b) (distribute a c)"
| "distribute a b = Mul a b"

fun is_Add :: "expr \<Rightarrow> bool" where
  "is_Add (Add a b) = True"
| "is_Add _ = False"

fun expand_power :: "expr \<Rightarrow> nat \<Rightarrow> expr" where
  "expand_power a 0 = Integer 1"
| "expand_power a (Suc 0) = a"
| "expand_power a (Suc n) = distribute a (expand_power a n)"

fun expand :: "expr \<Rightarrow> expr" where
  "expand (Add a b) = Add (expand a) (expand b)"
| "expand (Mul a b) = distribute (expand a) (expand b)"
| "expand (Pow a n) = (if is_Add (expand a) then expand_power (expand a) n else Pow (expand a) n)"
| "expand (Sin a) = Sin (expand a)"
| "expand (Cos a) = Cos (expand a)"
| "expand (AppliedUndef f args) = AppliedUndef f (map expand args)"
| "expand e = e"

text \<open>The models \<open>{y: a*(x + 1)}\<close> and \<open>{y: a*x + a*1}\<close>, \<open>{y: x + sin(x)**2 + cos(x)**2}\<close>
  and \<open>{y: x + 1}\<close>.\<close>

definition product_model :: "expr Model" where
  "product_model =
     \<lparr> model_dict = [(Variable ''y'',
          Mul (Symbol (Parameter ''a'')) (Add (Symbol (Variable ''x'')) (Integer 1)))],
       independent_vars = [Variable ''x''], dependent_vars = [Variable ''y''],
       interdependent_vars = [], params = [Parameter ''a''],
       sigmas = [(Variable ''y'', Variable ''sigma_y'')], signature = [''x'', ''a''] \<rparr>"

definition sum_model :: "expr Model" where
  "sum_model =
     \<lparr> model_dict = [(Variable ''y'',
          Add (Mul (Symbol (Parameter ''a'')) (Symbol (Variable ''x'')))
              (Mul (Symbol (Parameter ''a'')) (Integer 1)))],
       independent_vars = [Variable ''x''], dependent_vars = [Variable ''y''],
       interdependent_vars = [], params = [Parameter ''a''],
       sigmas = [(Variable ''y'', Variable ''sigma_y'')], signature = [''x'', ''a''] \<rparr>"

definition trig_expr :: expr where
  "trig_expr = Add (Add (Symbol (Variable ''x'')) (Pow (Sin (Symbol (Variable ''x''))) 2))
                   (Pow (Cos (Symbol (Variable ''x''))) 2)"

definition affine_expr :: expr where
  "affine_expr = Add (Symbol (Variable ''x'')) (Integer 1)"

definition trig_model :: "expr Model" where
  "trig_model =
     \<lparr> model_dict = [(Variable ''y'', trig_expr)],
       independent_vars = [Variable ''x''], dependent_vars = [Variable ''y''],
       interdependent_vars = [], params = [],
       sigmas = [(Variable ''y'', Variable ''sigma_y'')], signature = [''x''] \<rparr>"

definition affine_model :: "expr Model" where
  "affine_model =
     \<lparr> model_dict = [(Variable ''y'', affine_expr)],
       independent_vars = [Variable ''x''], dependent_vars = [Variable ''y''],
       interdependent_vars = [], params = [],
       sigmas = [(Variable ''y'', Variable ''sigma_y'')], signature = [''x''] \<rparr>"

section \<open>Negation of a model\<close>

text \<open>
  \<open>BaseModel.__neg__\<close> copies the dict of the model, assigns to the keys of the copy and
  hands the copy to the constructor. Whether the original is changed depends on which
  dict object an assignment writes to, so the dicts live in a store here: an address is
  an index into the list of the dict objects allocated so far, and an instance holds the
  address of its \<open>model_dict\<close> beside its other attributes, which are lists that nothing
  assigns to after the construction.
\<close>

type_synonym 'e heap = "(symbol \<times> 'e) list list"

record 'e model_object =
  model_dict_ref :: nat
  attributes :: "'e Model"

text \<open>The model an instance stands for in a store: its attributes, with the
  \<open>model_dict\<close> read from the store.\<close>

definition the_model :: "'e heap \<Rightarrow> 'e model_object \<Rightarrow> 'e Model" where
  "the_model h self = (attributes self)\<lparr> model_dict := h ! model_dict_ref self \<rparr>"

text \<open>\<open>d[k] = v\<close>: the value of a key of the dict is replaced where it stands, a new key
  is added at the end.\<close>

fun setitem :: "('k \<times> 'v) list \<Rightarrow> 'k \<Rightarrow> 'v \<Rightarrow> ('k \<times> 'v) list" where
  "setitem [] k v = [(k, v)]"
| "setitem ((k', v') # d) k v = (if k' = k then (k, v) # d else (k', v') # setitem d k v)"

text \<open>\<open>self.__class__(new_model_dict)\<close>: \<open>BaseModel.__init__\<close> with a mapping calls
  \<open>_init_from_dict\<close>, which stores the sorted items in a new \<open>OrderedDict\<close>.\<close>

definition BaseModel_init ::
  "('e \<Rightarrow> symbol list \<times> symbol list) \<Rightarrow> 'e heap \<Rightarrow> nat \<Rightarrow> error + ('e heap \<times> 'e model_object)" where
  "BaseModel_init sep h model =
     (case init_from_dict sep (h ! model) of
        Inl e \<Rightarrow> Inl e
      | Inr m \<Rightarrow> Inr (h @ [model_dict m], \<lparr> model_dict_ref = length h, attributes = m \<rparr>))"

text \<open>The loop \<open>for key in new_model_dict: new_model_dict[key] *= -1\<close>, over the keys the
  dict has when the loop starts. \<open>mul\<close> is the product of SymPy, an argument here; an
  expression is immutable, so \<open>*=\<close> assigns the product to the key.\<close>

fun neg_loop :: "('e \<Rightarrow> int \<Rightarrow> 'e) \<Rightarrow> nat \<Rightarrow> symbol list \<Rightarrow> 'e heap \<Rightarrow> error + 'e heap" where
  "neg_loop mul new_model_dict [] h = Inr h"
| "neg_loop mul new_model_dict (key # keys) h =
     (case lookup (h ! new_model_dict) key of
        Inl e \<Rightarrow> Inl e
      | Inr v \<Rightarrow>
          neg_loop mul new_model_dict keys
            (h[new_model_dict := setitem (h ! new_model_dict) key (mul v (- 1))]))"

text \<open>\<open>BaseModel.__neg__\<close>\<close>

definition BaseModel_neg ::
  "('e \<Rightarrow> symbol list \<times> symbol list) \<Rightarrow> ('e \<Rightarrow> int \<Rightarrow> 'e) \<Rightarrow> 'e heap \<Rightarrow> 'e model_object
     \<Rightarrow> error + ('e heap \<times> 'e model_object)" where
  "BaseModel_neg sep mul h self =
     (let new_model_dict = length h;
          h1 = h @ [h ! model_dict_ref self]
      in case neg_loop mul new_model_dict (map fst (h1 ! new_model_dict)) h1 of
           Inl e \<Rightarrow> Inl e
         | Inr h2 \<Rightarrow> BaseModel_init sep h2 new_model_dict)"

text \<open>\<open>-(-self)\<close>\<close>

definition neg_neg ::
  "('e \<Rightarrow> symbol list \<times> symbol list) \<Rightarrow> ('e \<Rightarrow> int \<Rightarrow> 'e) \<Rightarrow> 'e heap \<Rightarrow> 'e model_object
     \<Rightarrow> error + ('e heap \<times> 'e model_object)" where
  "neg_neg sep mul h self =
     (case BaseModel_neg sep mul h self of
        Inl e \<Rightarrow> Inl e
      | Inr (h1, m1) \<Rightarrow> BaseModel_neg sep mul h1 m1)"

text \<open>
  A model of the product of an expression and a nonzero integer in SymPy: the integer is
  multiplied into a numeric coefficient, distributed over a sum, and a coefficient of
  one is dropped.
\<close>

fun times_int :: "expr \<Rightarrow> int \<Rightarrow> expr" where
  "times_int (Integer n) k = Integer (n * k)"
| "times_int (Mul (Integer n) e) k = (if n * k = 1 then e else Mul (Integer (n * k)) e)"
| "times_int (Add a b) k = Add (times_int a k) (times_int b k)"
| "times_int e k = (if k = 1 then e else Mul (Integer k) e)"

text \<open>A model of 257 components \<open>{y: a*x, yy: a*x, yyy: a*x, ...}\<close>.\<close>

definition large_dict :: "(symbol \<times> expr) list" where
  "large_dict =
     map (\<lambda>i. (Variable (replicate (Suc i) CHR ''y''),
                Mul (Symbol (Parameter ''a'')) (Symbol (Variable ''x'')))) [0..<257]"

section \<open>Differentiation\<close>

text \<open>
  SymPy evaluates a sum, a product and a power when it builds them: a zero term and a
  factor of one are dropped, a zero factor makes the product zero, numbers are combined.
\<close>

definition mk_add :: "expr \<Rightarrow> expr \<Rightarrow> expr" where
  "mk_add a b =
     (if a = Integer 0 then b
      else if b = Integer 0 then a
      else case (a, b) of (Integer m, Integer n) \<Rightarrow> Integer (m + n) | _ \<Rightarrow> Add a b)"

definition mk_mul :: "expr \<Rightarrow> expr \<Rightarrow> expr" where
  "mk_mul a b =
     (if a = Integer 0 \<or> b = Integer 0 then Integer 0
      else if a = Integer 1 then b
      else if b = Integer 1 then a
      else case (a, b) of (Integer m, Integer n) \<Rightarrow> Integer (m * n) | _ \<Rightarrow> Mul a b)"

definition mk_pow :: "expr \<Rightarrow> nat \<Rightarrow> expr" where
  "mk_pow a n =
     (if n = 0 then Integer 1
      else if n = 1 then a
      else case a of Integer m \<Rightarrow> Integer (m ^ n) | _ \<Rightarrow> Pow a n)"

text \<open>\<open>D(expr, *variables)\<close> and \<open>sympy.Derivative(expr, *variables)\<close>: the derivative is
  built and not evaluated. The derivative of a symbol is a derivative marker.\<close>

definition Derivative_of :: "expr \<Rightarrow> symbol list \<Rightarrow> expr" where
  "Derivative_of e vs = (case e of Symbol s \<Rightarrow> Symbol (Derivative s vs) | _ \<Rightarrow> Deriv e vs)"

fun is_plain_symbol :: "expr \<Rightarrow> bool" where
  "is_plain_symbol (Symbol s) = (\<not> isinstance_Derivative s)"
| "is_plain_symbol _ = False"

text \<open>
  \<open>expr.diff(p)\<close> of SymPy, on the expressions that a model and its function form are made
  of: symbols, numbers, sums, products, powers, sines, cosines and undefined functions
  applied to symbols. The derivative of an undefined function with respect to one of its
  arguments is left as a derivative; a function whose arguments do not hold the symbol
  has the derivative zero. On a derivative and on a function applied to other
  expressions the result is \<open>None\<close>: these are not modelled.
\<close>

fun diff :: "expr \<Rightarrow> symbol \<Rightarrow> expr option" where
  "diff (Symbol s) p =
     (if isinstance_Derivative s then None else Some (Integer (if s = p then 1 else 0)))"
| "diff (Integer n) p = Some (Integer 0)"
| "diff (Add a b) p =
     (case diff a p of None \<Rightarrow> None | Some da \<Rightarrow>
     (case diff b p of None \<Rightarrow> None | Some db \<Rightarrow> Some (mk_add da db)))"
| "diff (Mul a b) p =
     (case diff a p of None \<Rightarrow> None | Some da \<Rightarrow>
     (case diff b p of None \<Rightarrow> None | Some db \<Rightarrow> Some (mk_add (mk_mul da b) (mk_mul a db))))"
| "diff (Pow a n) p =
     (case diff a p of None \<Rightarrow> None
      | Some da \<Rightarrow> Some (mk_mul (mk_mul (Integer (int n)) (mk_pow a (n - 1))) da))"
| "diff (Sin a) p =
     (case diff a p of None \<Rightarrow> None | Some da \<Rightarrow> Some (mk_mul (Cos a) da))"
| "diff (Cos a) p =
     (case diff a p of None \<Rightarrow> None
      | Some da \<Rightarrow> Some (mk_mul (mk_mul (Integer (- 1)) (Sin a)) da))"
| "diff (AppliedUndef f args) p =
     (if list_all is_plain_symbol args
      then Some (if Symbol p \<in> set args then Deriv (AppliedUndef f args) [p] else Integer 0)
      else None)"
| "diff (Deriv e vs) p = None"

text \<open>
  \<open>expr.xreplace(rule)\<close>: a subexpression that is a key of the rule is replaced by its
  value, any other expression is rebuilt from its replaced arguments. The variables of a
  derivative are left as they are: they are parameters, and no rule of this program has
  a parameter as a key.
\<close>

fun xreplace_symbol :: "(expr \<times> expr) list \<Rightarrow> symbol \<Rightarrow> expr" where
  "xreplace_symbol rl (Derivative e vs) =
     (case map_of rl (Symbol (Derivative e vs)) of
        Some r \<Rightarrow> r
      | None \<Rightarrow> Derivative_of (xreplace_symbol rl e) vs)"
| "xreplace_symbol rl s = (case map_of rl (Symbol s) of Some r \<Rightarrow> r | None \<Rightarrow> Symbol s)"

fun xreplace :: "(expr \<times> expr) list \<Rightarrow> expr \<Rightarrow> expr" where
  "xreplace rl (Symbol s) = xreplace_symbol rl s"
| "xreplace rl (Integer n) = (case map_of rl (Integer n) of Some r \<Rightarrow> r | None \<Rightarrow> Integer n)"
| "xreplace rl (Add a b) =
     (case map_of rl (Add a b) of Some r \<Rightarrow> r | None \<Rightarrow> mk_add (xreplace rl a) (xreplace rl b))"
| "xreplace rl (Mul a b) =
     (case map_of rl (Mul a b) of Some r \<Rightarrow> r | None \<Rightarrow> mk_mul (xreplace rl a) (xreplace rl b))"
| "xreplace rl (Pow a n) =
     (case map_of rl (Pow a n) of Some r \<Rightarrow> r | None \<Rightarrow> mk_pow (xreplace rl a) n)"
| "xreplace rl (Sin a) =
     (case map_of rl (Sin a) of Some r \<Rightarrow> r | None \<Rightarrow> Sin (xreplace rl a))"
| "xreplace rl (Cos a) =
     (case map_of rl (Cos a) of Some r \<Rightarrow> r | None \<Rightarrow> Cos (xreplace rl a))"
| "xreplace rl (AppliedUndef f args) =
     (case map_of rl (AppliedUndef f args) of
        Some r \<Rightarrow> r
      | None \<Rightarrow> AppliedUndef f (map (xreplace rl) args))"
| "xreplace rl (Deriv e vs) =
     (case map_of rl (Deriv e vs) of Some r \<Rightarrow> r | None \<Rightarrow> Derivative_of (xreplace rl e) vs)"

text \<open>\<open>expr.subs(rule, evaluate=False)\<close>: on these expressions the substitution replaces
  what \<open>xreplace\<close> replaces, and a derivative is rebuilt without being evaluated.\<close>

definition subs :: "(expr \<times> expr) list \<Rightarrow> expr \<Rightarrow> expr" where
  "subs rl e = xreplace rl e"

text \<open>\<open>str(arg)\<close> for the arguments of a function: symbols and applied functions.\<close>

fun join :: "string \<Rightarrow> string list \<Rightarrow> string" where
  "join sep [] = []"
| "join sep [x] = x"
| "join sep (x # xs) = x @ sep @ join sep xs"

fun expr_str :: "expr \<Rightarrow> string" where
  "expr_str (Symbol s) = str s"
| "expr_str (AppliedUndef f args) = f @ ''('' @ join '', '' (map expr_str args) @ '')''"
| "expr_str _ = []"

fun isinstance_Parameter_expr :: "expr \<Rightarrow> bool" where
  "isinstance_Parameter_expr (Symbol s) = isinstance_Parameter s"
| "isinstance_Parameter_expr _ = False"

text \<open>\<open>dict(pairs)\<close>: a later pair with the key of an earlier one replaces its value.\<close>

definition dict_of :: "('k \<times> 'v) list \<Rightarrow> ('k \<times> 'v) list" where
  "dict_of pairs = foldl (\<lambda>d (k, v). setitem d k v) [] pairs"

text \<open>
  \<open>BaseModel.vars_as_functions\<close>: in the order of \<open>ordered_symbols\<close>, every key of the
  model becomes the function of its name applied to its dependencies, each replaced by
  its function when it has one, variables before parameters and sorted by their text.
\<close>

fun vars2functions_loop ::
  "(symbol \<times> symbol list) list \<Rightarrow> symbol list \<Rightarrow> (symbol \<times> expr) list \<Rightarrow> (symbol \<times> expr) list" where
  "vars2functions_loop conn [] vars2functions = vars2functions"
| "vars2functions_loop conn (symbol # symbols) vars2functions =
     (case map_of conn symbol of
        None \<Rightarrow> vars2functions_loop conn symbols vars2functions
      | Some dependencies \<Rightarrow>
          let deps = map (\<lambda>dependency. case map_of vars2functions dependency of
                                          Some f \<Rightarrow> f | None \<Rightarrow> Symbol dependency) dependencies;
              sorted_deps = sort_key (\<lambda>arg. (isinstance_Parameter_expr arg, expr_str arg)) deps
          in vars2functions_loop conn symbols
               (setitem vars2functions symbol (AppliedUndef (name symbol) sorted_deps)))"

definition vars_as_functions :: "expr Model \<Rightarrow> error + (symbol \<times> expr) list" where
  "vars_as_functions m =
     (case ordered_symbols seperate_symbols m of
        Inl e \<Rightarrow> Inl e
      | Inr symbols \<Rightarrow>
          Inr (vars2functions_loop (connectivity_mapping seperate_symbols (model_dict m))
                 symbols []))"

text \<open>\<open>BaseModel.function_dict\<close>: the expression of every key with the keys in it replaced
  by their functions, under the function of the key, in the order of
  \<open>vars_as_functions\<close>.\<close>

definition function_dict :: "expr Model \<Rightarrow> error + (expr \<times> expr) list" where
  "function_dict m =
     (case vars_as_functions m of
        Inl e \<Rightarrow> Inl e
      | Inr v2f \<Rightarrow>
     (case mapM (\<lambda>(var, func).
                   case lookup (model_dict m) var of
                     Inl e \<Rightarrow> Inl e
                   | Inr expr \<Rightarrow> Inr (func, xreplace (map (\<lambda>(s, f). (Symbol s, f)) v2f) expr)) v2f of
        Inl e \<Rightarrow> Inl e
      | Inr func_tuples \<Rightarrow> Inr (dict_of func_tuples)))"

text \<open>\<open>_partial_diff(var, *params)\<close>\<close>

fun partial_diff :: "expr \<Rightarrow> symbol list \<Rightarrow> expr" where
  "partial_diff (Deriv e vs) ps = Derivative_of e (vs @ ps)"
| "partial_diff (Symbol (Derivative s vs)) ps = Derivative_of (Symbol s) (vs @ ps)"
| "partial_diff var ps = Derivative_of var ps"

text \<open>The variables of a derivative have to be symbols: \<open>sympy.Derivative\<close> refuses
  anything else with \<open>ValueError\<close>.\<close>

fun as_symbol :: "expr \<Rightarrow> error + symbol" where
  "as_symbol (Symbol s) = Inr s"
| "as_symbol _ = Inl ValueError"

text \<open>\<open>_partial_subs(func, func2vars)\<close>\<close>

fun partial_subs :: "expr \<Rightarrow> (expr \<times> expr) list \<Rightarrow> error + expr" where
  "partial_subs (Deriv e vs) func2vars =
     (case mapM (\<lambda>var. as_symbol (xreplace func2vars (Symbol var))) vs of
        Inl err \<Rightarrow> Inl err
      | Inr new_variables \<Rightarrow> Inr (partial_diff (xreplace func2vars e) new_variables))"
| "partial_subs (Symbol (Derivative s vs)) func2vars =
     (case mapM (\<lambda>var. as_symbol (xreplace func2vars (Symbol var))) vs of
        Inl err \<Rightarrow> Inl err
      | Inr new_variables \<Rightarrow> Inr (partial_diff (xreplace func2vars (Symbol s)) new_variables))"
| "partial_subs func func2vars = Inr (xreplace func2vars func)"

text \<open>
  The nested loop of \<open>jacobian_from_model\<close>, over the pairs of \<open>function_dict\<close> and the
  parameters. The result is \<open>None\<close> where the derivative is not modelled, or where the
  key of the new component is not a symbol or a derivative marker.
\<close>

fun jac_loop ::
  "bool \<Rightarrow> (expr \<times> expr) list \<Rightarrow> (expr \<times> expr \<times> symbol) list \<Rightarrow> (symbol \<times> expr) list
     \<Rightarrow> (error + (symbol \<times> expr) list) option" where
  "jac_loop as_functions functions_as_vars [] jac = Some (Inr jac)"
| "jac_loop as_functions functions_as_vars ((func, expr, param) # rest) jac =
     (case diff expr param of
        None \<Rightarrow> None
      | Some dfdp \<Rightarrow>
     (case partial_subs (Derivative_of func [param]) functions_as_vars of
        Inl e \<Rightarrow> Some (Inl e)
      | Inr (Symbol key) \<Rightarrow>
          jac_loop as_functions functions_as_vars rest
            (setitem jac key (if as_functions then dfdp else subs functions_as_vars dfdp))
      | Inr _ \<Rightarrow> None))"

text \<open>\<open>jacobian_from_model(model, as_functions)\<close>\<close>

definition jacobian_from_model :: "expr Model \<Rightarrow> bool \<Rightarrow> (error + expr Model) option" where
  "jacobian_from_model model as_functions =
     (case vars_as_functions model of
        Inl e \<Rightarrow> Some (Inl e)
      | Inr v2f \<Rightarrow>
     (case function_dict model of
        Inl e \<Rightarrow> Some (Inl e)
      | Inr fd \<Rightarrow>
          let functions_as_vars = dict_of (map (\<lambda>(k, v). (v, Symbol k)) v2f)
          in (case jac_loop as_functions functions_as_vars
                     (concat (map (\<lambda>(func, expr). map (\<lambda>param. (func, expr, param)) (params model)) fd))
                     [] of
                None \<Rightarrow> None
              | Some (Inl e) \<Rightarrow> Some (Inl e)
              | Some (Inr jac) \<Rightarrow>
                  Some (init_from_dict seperate_symbols
                          (foldl (\<lambda>d (y, expr).
                                    setitem d y (if as_functions then expr
                                                 else subs functions_as_vars expr))
                             jac (model_dict model))))))"

text \<open>A \<open>GradientModel\<close> is a model that holds the model of its Jacobian.\<close>

record GradientModel = "expr Model" +
  jacobian_model :: "expr Model"

text \<open>\<open>GradientModel.__init__\<close>\<close>

definition GradientModel_init :: "(symbol \<times> expr) list \<Rightarrow> (error + GradientModel) option" where
  "GradientModel_init md =
     (case init_from_dict seperate_symbols md of
        Inl e \<Rightarrow> Some (Inl e)
      | Inr m \<Rightarrow>
     (case jacobian_from_model m False of
        None \<Rightarrow> None
      | Some (Inl e) \<Rightarrow> Some (Inl e)
      | Some (Inr jm) \<Rightarrow>
          Some (Inr \<lparr> model_dict = model_dict m, independent_vars = independent_vars m,
                      dependent_vars = dependent_vars m,
                      interdependent_vars = interdependent_vars m, params = params m,
                      sigmas = sigmas m, signature = signature m, jacobian_model = jm \<rparr>)))"

text \<open>
  Modelled from the spec: the callable that \<open>sympy_to_py(expr, args, [])\<close> of the support
  module returns takes the symbols of \<open>args\<close> by name and evaluates the expression as
  \<open>eval_expr\<close> does; a call that leaves one of them without a value raises \<open>TypeError\<close>.
\<close>

definition sympy_to_py :: "expr \<Rightarrow> symbol list \<Rightarrow> (string \<rightharpoonup> real ndarray) \<Rightarrow> error + real ndarray" where
  "sympy_to_py expr args kwargs =
     (if \<exists>s \<in> set args. kwargs (name s) = None then Inl TypeError else eval_expr kwargs expr)"

text \<open>\<open>CallableModel.numerical_components\<close>\<close>

definition numerical_components ::
  "expr Model \<Rightarrow> ((string \<rightharpoonup> real ndarray) \<Rightarrow> error + real ndarray) list" where
  "numerical_components m =
     map (\<lambda>(var, expr).
            let dependencies = remdups (fst (seperate_symbols expr) @ snd (seperate_symbols expr));
                ordered = sort_key (\<lambda>arg. (isinstance_Parameter arg, str arg)) dependencies
            in sympy_to_py expr ordered)
       (model_dict m)"

text \<open>\<open>np.ones_like\<close>, \<open>np.broadcast_arrays\<close> and \<open>np.stack\<close> on scalars and
  one-dimensional arrays. The stacked array is held as the list of its rows.\<close>

fun ones_like :: "real ndarray \<Rightarrow> real ndarray" where
  "ones_like (Scalar x) = Scalar 1"
| "ones_like (Array xs) = Array (replicate (length xs) 1)"

fun broadcast_to :: "nat \<Rightarrow> 'a ndarray \<Rightarrow> 'a ndarray" where
  "broadcast_to n (Scalar x) = Array (replicate n x)"
| "broadcast_to n (Array xs) = (if length xs = n then Array xs else Array (replicate n (hd xs)))"

definition broadcast_arrays :: "'a ndarray list \<Rightarrow> error + 'a ndarray list" where
  "broadcast_arrays arrays =
     (let dims = concat (map (\<lambda>a. case a of Scalar x \<Rightarrow> [] | Array xs \<Rightarrow> [length xs]) arrays);
          large = filter (\<lambda>n. n \<noteq> 1) dims
      in if dims = [] then Inr arrays
         else if large = [] then Inr (map (broadcast_to 1) arrays)
         else if \<exists>n \<in> set large. n \<noteq> hd large then Inl ValueError
         else Inr (map (broadcast_to (hd large)) arrays))"

definition stack :: "'a ndarray list \<Rightarrow> error + 'a ndarray list" where
  "stack arrays = (if arrays = [] then Inl ValueError else Inr arrays)"

text \<open>
  \<open>GradientModel.eval_jacobian\<close>: the model of the Jacobian is called, and for every
  component of the model the values of its partial derivatives, one per parameter, are
  broadcast together and stacked.
\<close>

definition eval_jacobian ::
  "GradientModel \<Rightarrow> real ndarray list \<Rightarrow> (string \<times> real ndarray) list
     \<Rightarrow> error + real ndarray list list" where
  "eval_jacobian self args kwargs =
     (case eval_components seperate_symbols (jacobian_model self)
             (numerical_components (jacobian_model self)) args kwargs of
        Inl e \<Rightarrow> Inl e
      | Inr vals \<Rightarrow>
          let eval_jac_dict = zip (map fst (model_dict (jacobian_model self))) vals
          in mapM (\<lambda>var.
                     case mapM (\<lambda>param.
                                  case lookup eval_jac_dict var of
                                    Inl e \<Rightarrow> Inl e
                                  | Inr w \<Rightarrow>
                                      broadcast (*)
                                        (case map_of eval_jac_dict (Derivative var [param]) of
                                           None \<Rightarrow> Scalar 0
                                         | Some v \<Rightarrow> v)
                                        (ones_like w))
                            (params self) of
                       Inl e \<Rightarrow> Inl e
                     | Inr partials \<Rightarrow>
                         (case broadcast_arrays partials of Inl e \<Rightarrow> Inl e | Inr bs \<Rightarrow> stack bs))
               (map fst (model_dict self)))"

text \<open>The model \<open>{y: a*x, z: y**2 + a}\<close>.\<close>

definition chain_dict :: "(symbol \<times> expr) list" where
  "chain_dict =
     [(Variable ''z'', Add (Pow (Symbol (Variable ''y'')) 2) (Symbol (Parameter ''a''))),
      (Variable ''y'', Mul (Symbol (Parameter ''a'')) (Symbol (Variable ''x'')))]"

definition chain_gradient_model :: GradientModel where
  "chain_gradient_model =
     \<lparr> model_dict =
         [(Variable ''y'', Mul (Symbol (Parameter ''a'')) (Symbol (Variable ''x''))),
          (Variable ''z'', Add (Pow (Symbol (Variable ''y'')) 2) (Symbol (Parameter ''a'')))],
       independent_vars = [Variable ''x''],
       dependent_vars = [Variable ''z''],
       interdependent_vars = [Variable ''y''],
       params = [Parameter ''a''],
       sigmas = [(Variable ''z'', Variable ''sigma_z'')],
       signature = [''x'', ''a''],
       jacobian_model =
         \<lparr> model_dict =
             [(Derivative (Variable ''y'') [Parameter ''a''], Symbol (Variable ''x'')),
              (Derivative (Variable ''z'') [Parameter ''a''],
               Add (Mul (Mul (Integer 2) (Symbol (Variable ''y'')))
                        (Symbol (Derivative (Variable ''y'') [Parameter ''a''])))
                   (Integer 1)),
              (Variable ''y'', Mul (Symbol (Parameter ''a'')) (Symbol (Variable ''x''))),
              (Variable ''z'', Add (Pow (Symbol (Variable ''y'')) 2) (Symbol (Parameter ''a'')))],
           independent_vars = [Variable ''x''],
           dependent_vars = [Derivative (Variable ''z'') [Parameter ''a''], Variable ''z''],
           interdependent_vars = [Derivative (Variable ''y'') [Parameter ''a''], Variable ''y''],
           params = [Parameter ''a''],
           sigmas = [(Derivative (Variable ''z'') [Parameter ''a''], Variable ''sigma_dz_da''),
                     (Variable ''z'', Variable ''sigma_z'')],
           signature = [''x'', ''a''] \<rparr> \<rparr>"

section \<open>Properties\<close>

lemma mapM_Inr: "mapM f xs = Inr ys \<Longrightarrow> length ys = length xs \<and> (\<forall>i<length xs. f (xs ! i) = Inr (ys ! i))"
  by (induction xs arbitrary: ys) (auto split: sum.splits simp: nth_Cons split: nat.splits)

lemma mapM_length: "mapM f xs = Inr ys \<Longrightarrow> length ys = length xs"
  by (simp add: mapM_Inr)

lemma mapM_map_of:
  "mapM f xs = Inr ys \<Longrightarrow> x \<in> set xs \<Longrightarrow> \<exists>y. map_of (zip xs ys) x = Some y \<and> f x = Inr y"
  by (induction xs arbitrary: ys) (auto split: sum.splits)

lemma mapM_set:
  "mapM f xs = Inr ys \<Longrightarrow> set ys = {y. \<exists>x \<in> set xs. f x = Inr y}"
  by (induction xs arbitrary: ys) (auto split: sum.splits)

lemma mapM_lookup_snd:
  "mapM (\<lambda>i. lookup dd (fst i)) md = Inr keys \<Longrightarrow> map snd (zip keys md) = md"
  by (drule mapM_length) (simp add: map_snd_zip)

lemma getitem_loop_None:
  "(\<forall>(d,f) \<in> set items. \<exists>y. lookup dd d = Inr y \<and> y \<noteq> v) \<Longrightarrow> getitem_loop dd items v = Inr None"
  by (induction dd items v rule: getitem_loop.induct) (auto split: sum.splits)

lemma getitem_loop_Some:
  "\<forall>(d,f) \<in> set items. \<exists>y. lookup dd d = Inr y \<Longrightarrow> \<exists>(d,f) \<in> set items. lookup dd d = Inr v
    \<Longrightarrow> \<exists>d f. getitem_loop dd items v = Inr (Some f) \<and> (d, f) \<in> set items \<and> lookup dd d = Inr v"
proof (induction dd items v rule: getitem_loop.induct)
  case (1 dd dependent_var)
  then show ?case by simp
next
  case (2 dd d f items dependent_var)
  from "2.prems"(1) obtain y where y: "lookup dd d = Inr y" by auto
  show ?case
  proof (cases "dependent_var = y")
    case True
    with y show ?thesis by auto
  next
    case False
    with y "2.prems" have "\<exists>(d,f) \<in> set items. lookup dd d = Inr dependent_var" by auto
    moreover from "2.prems" have "\<forall>(d,f) \<in> set items. \<exists>y. lookup dd d = Inr y" by auto
    ultimately obtain d' f' where "getitem_loop dd items dependent_var = Inr (Some f')"
       "(d', f') \<in> set items" "lookup dd d' = Inr dependent_var"
      using "2.IH"[OF y False] by blast
    with y False show ?thesis by auto
  qed
qed

lemma set_sorted_model_dict:
  assumes "length keys = length md"
  shows "set (map snd (sort_key (\<lambda>p. str (fst p)) (zip keys md))) = set md"
proof -
  have "set (map snd (sort_key (\<lambda>p. str (fst p)) (zip keys md))) = snd ` set (zip keys md)"
    by simp
  also have "\<dots> = set (map snd (zip keys md))" by simp
  also have "\<dots> = set md" using assms by (simp only: map_snd_zip)
  finally show ?thesis .
qed

lemma ODEModel_init_fields:
  assumes "ODEModel_init sep md init = Inr m"
  shows "\<exists>deps. mapM dependent_of (map fst md) = Inr deps
           \<and> dependent_derivatives m = zip (map fst md) deps
           \<and> dependent_vars m = sort_key str deps
           \<and> set (model_dict m) = set md"
proof (cases "mapM dependent_of (map fst md)")
  case (Inl e)
  with assms show ?thesis by (simp add: ODEModel_init_def)
next
  case deps: (Inr deps)
  show ?thesis
  proof (cases "mapM independent_of (map fst md)")
    case (Inl e)
    with assms deps show ?thesis by (simp add: ODEModel_init_def)
  next
    case indeps: (Inr indeps)
    show ?thesis
    proof (cases "mapM (\<lambda>i. lookup (zip (map fst md) deps) (fst i)) md")
      case (Inl e)
      with assms deps indeps show ?thesis
        by (simp add: ODEModel_init_def Let_def split: if_splits)
    next
      case keys: (Inr keys)
      have len: "length keys = length md" using mapM_length[OF keys] .
      from assms deps indeps keys have
        "dependent_derivatives m = zip (map fst md) deps"
        "dependent_vars m = sort_key str deps"
        "model_dict m = map snd (sort_key (\<lambda>p. str (fst p)) (zip keys md))"
        by (auto simp: ODEModel_init_def Let_def split: if_splits sum.splits)
      with deps set_sorted_model_dict[OF len] show ?thesis by simp
    qed
  qed
qed

lemma mapM_Nil_iff: "mapM f xs = Inr [] \<longleftrightarrow> xs = []"
  by (cases xs) (auto split: sum.splits)

lemma mapM_Inl: "mapM f xs = Inl e \<Longrightarrow> \<exists>x \<in> set xs. f x = Inl e"
  by (induction xs) (auto split: sum.splits)

lemma dependent_of_not_ModelError: "dependent_of d \<noteq> Inl ModelError"
  by (cases d) (auto simp: dependent_of_def split: list.splits)

lemma independent_of_not_ModelError: "independent_of d \<noteq> Inl ModelError"
  by (cases d) (auto simp: independent_of_def split: list.splits)

lemma lookup_not_ModelError: "lookup dd k \<noteq> Inl ModelError"
  by (auto simp: lookup_def split: option.splits)

lemma make_signature_not_ModelError: "make_signature ivs ps \<noteq> Inl ModelError"
  by (auto simp: make_signature_def Let_def)

lemma ODEModel_init_ModelError:
  "ODEModel_init sep md init = Inl ModelError \<longleftrightarrow> md = []"
proof
  assume "md = []"
  then show "ODEModel_init sep md init = Inl ModelError"
    by (simp add: ODEModel_init_def)
next
  assume a: "ODEModel_init sep md init = Inl ModelError"
  show "md = []"
  proof (cases "mapM dependent_of (map fst md)")
    case (Inl e)
    with a have "e = ModelError" by (simp add: ODEModel_init_def)
    with mapM_Inl[OF Inl] dependent_of_not_ModelError show ?thesis by blast
  next
    case deps: (Inr deps)
    show ?thesis
    proof (cases "mapM independent_of (map fst md)")
      case (Inl e)
      with a deps have "e = ModelError" by (simp add: ODEModel_init_def)
      with mapM_Inl[OF Inl] independent_of_not_ModelError show ?thesis by blast
    next
      case indeps: (Inr indeps)
      show ?thesis
      proof (cases "indeps = []")
        case True
        with indeps show ?thesis by (simp add: mapM_Nil_iff)
      next
        case ne: False
        have "set (sort_key str (remdups indeps)) = set indeps" by simp
        with ne have ivs: "sort_key str (remdups indeps) \<noteq> []" by (metis set_empty)
        show ?thesis
        proof (cases "mapM (\<lambda>i. lookup (zip (map fst md) deps) (fst i)) md")
          case (Inl e)
          with a deps indeps ivs have "e = ModelError"
            by (simp add: ODEModel_init_def Let_def)
          with mapM_Inl[OF Inl] show ?thesis by (auto simp: lookup_not_ModelError)
        next
          case keys: (Inr keys)
          with a deps indeps ivs make_signature_not_ModelError show ?thesis
            by (auto simp: ODEModel_init_def Let_def split: sum.splits)
        qed
      qed
    qed
  qed
qed

text \<open>
  C4. The claim: an ODE specification that does not have exactly one independent
  variable is refused with \<open>ModelError\<close>, in particular one with two or more. The
  constructor only tests \<open>not len(self.independent_vars)\<close>: a specification whose
  derivatives are taken with respect to two different variables is accepted, and both
  end up in \<open>independent_vars\<close>.
\<close>

theorem ODEModel_two_independent_accepted:
  "ODEModel_init (\<lambda>e::unit. ([], []))
     [(Derivative (Variable ''y'') [Variable ''x''], ()),
      (Derivative (Variable ''z'') [Variable ''t''], ())] ([]::(symbol \<times> int) list)
   = Inr \<lparr> model_dict = [(Derivative (Variable ''y'') [Variable ''x''], ()),
                          (Derivative (Variable ''z'') [Variable ''t''], ())],
            independent_vars = [Variable ''t'', Variable ''x''],
            dependent_vars = [Variable ''y'', Variable ''z''],
            interdependent_vars = [],
            params = [],
            sigmas = [(Variable ''y'', Variable ''sigma_y''), (Variable ''z'', Variable ''sigma_z'')],
            signature = [''t'', ''x''],
            initial = [],
            dependent_derivatives = [(Derivative (Variable ''y'') [Variable ''x''], Variable ''y''),
                                     (Derivative (Variable ''z'') [Variable ''t''], Variable ''z'')] \<rparr>"
  by (simp add: ODEModel_init_def dependent_of_def independent_of_def lookup_def make_signature_def)

text \<open>
  C10. Indexing an ODE model that was built by \<open>ODEModel.__init__\<close> with a symbol that
  is not one of its dependent variables returns \<open>None\<close> and raises nothing; with a
  dependent variable it returns the right-hand side \<open>f\<close> of an entry \<open>d: f\<close> of the
  specification whose derivative \<open>d\<close> is the derivative of that variable.
\<close>

theorem ODEModel_getitem_spec:
  assumes "ODEModel_init sep md init = Inr m"
  shows "(v \<notin> set (dependent_vars m) \<longrightarrow> ODEModel_getitem m v = Inr None) \<and>
         (v \<in> set (dependent_vars m) \<longrightarrow>
            (\<exists>d f. ODEModel_getitem m v = Inr (Some f) \<and> (d, f) \<in> set md \<and> dependent_of d = Inr v))"
proof -
  from ODEModel_init_fields[OF assms] obtain deps where
    deps: "mapM dependent_of (map fst md) = Inr deps"
    and dd: "dependent_derivatives m = zip (map fst md) deps"
    and dv: "dependent_vars m = sort_key str deps"
    and smd: "set (model_dict m) = set md" by blast
  have look: "\<exists>y. lookup (dependent_derivatives m) d = Inr y \<and> dependent_of d = Inr y"
    if "(d, f) \<in> set md" for d f
  proof -
    from that have "d \<in> set (map fst md)" by force
    from mapM_map_of[OF deps this] show ?thesis by (auto simp: lookup_def dd)
  qed
  have sdeps: "set deps = {y. \<exists>x \<in> set (map fst md). dependent_of x = Inr y}"
    using mapM_set[OF deps] .
  show ?thesis
  proof (intro conjI impI)
    assume "v \<notin> set (dependent_vars m)"
    then have "\<forall>(d,f) \<in> set (model_dict m). \<exists>y. lookup (dependent_derivatives m) d = Inr y \<and> y \<noteq> v"
      using look sdeps dv smd by fastforce
    then show "ODEModel_getitem m v = Inr None"
      unfolding ODEModel_getitem_def by (rule getitem_loop_None)
  next
    assume "v \<in> set (dependent_vars m)"
    then obtain d f where df: "(d, f) \<in> set md" "dependent_of d = Inr v"
      using sdeps dv by auto
    have a: "\<forall>(d,f) \<in> set (model_dict m). \<exists>y. lookup (dependent_derivatives m) d = Inr y"
      using look smd by fastforce
    have b: "\<exists>(d,f) \<in> set (model_dict m). lookup (dependent_derivatives m) d = Inr v"
      using look[OF df(1)] df smd by fastforce
    from getitem_loop_Some[OF a b] obtain d' f' where
      r: "getitem_loop (dependent_derivatives m) (model_dict m) v = Inr (Some f')"
         "(d', f') \<in> set (model_dict m)" "lookup (dependent_derivatives m) d' = Inr v" by blast
    from look[of d' f'] r smd have "dependent_of d' = Inr v" by auto
    with r smd show "\<exists>d f. ODEModel_getitem m v = Inr (Some f) \<and> (d, f) \<in> set md \<and> dependent_of d = Inr v"
      unfolding ODEModel_getitem_def by blast
  qed
qed


theorem ODEModel_getitem_spec_witness:
  "ODEModel_init (\<lambda>e::string. ([], [Parameter e]))
     [(Derivative (Variable ''y'') [Variable ''x''], ''a'')] ([]::(symbol \<times> int) list)
     = Inr \<lparr> model_dict = [(Derivative (Variable ''y'') [Variable ''x''], ''a'')],
              independent_vars = [Variable ''x''],
              dependent_vars = [Variable ''y''],
              interdependent_vars = [],
              params = [Parameter ''a''],
              sigmas = [(Variable ''y'', Variable ''sigma_y'')],
              signature = [''x'', ''a''],
              initial = [],
              dependent_derivatives = [(Derivative (Variable ''y'') [Variable ''x''], Variable ''y'')] \<rparr>
   \<and> ODEModel_getitem \<lparr> model_dict = [(Derivative (Variable ''y'') [Variable ''x''], ''a'')],
              independent_vars = [Variable ''x''],
              dependent_vars = [Variable ''y''],
              interdependent_vars = [],
              params = [Parameter ''a''],
              sigmas = [(Variable ''y'', Variable ''sigma_y'')],
              signature = [''x'', ''a''],
              initial = ([]::(symbol \<times> int) list),
              dependent_derivatives = [(Derivative (Variable ''y'') [Variable ''x''], Variable ''y'')] \<rparr>
         (Variable ''x'') = Inr None
   \<and> (\<exists>d f. ODEModel_getitem \<lparr> model_dict = [(Derivative (Variable ''y'') [Variable ''x''], ''a'')],
              independent_vars = [Variable ''x''],
              dependent_vars = [Variable ''y''],
              interdependent_vars = [],
              params = [Parameter ''a''],
              sigmas = [(Variable ''y'', Variable ''sigma_y'')],
              signature = [''x'', ''a''],
              initial = ([]::(symbol \<times> int) list),
              dependent_derivatives = [(Derivative (Variable ''y'') [Variable ''x''], Variable ''y'')] \<rparr>
         (Variable ''y'') = Inr (Some f)
        \<and> (d, f) \<in> set [(Derivative (Variable ''y'') [Variable ''x''], ''a'')]
        \<and> dependent_of d = Inr (Variable ''y''))"
proof -
  have i: "ODEModel_init (\<lambda>e::string. ([], [Parameter e]))
     [(Derivative (Variable ''y'') [Variable ''x''], ''a'')] ([]::(symbol \<times> int) list)
     = Inr \<lparr> model_dict = [(Derivative (Variable ''y'') [Variable ''x''], ''a'')],
              independent_vars = [Variable ''x''],
              dependent_vars = [Variable ''y''],
              interdependent_vars = [],
              params = [Parameter ''a''],
              sigmas = [(Variable ''y'', Variable ''sigma_y'')],
              signature = [''x'', ''a''],
              initial = [],
              dependent_derivatives = [(Derivative (Variable ''y'') [Variable ''x''], Variable ''y'')] \<rparr>"
    by (simp add: ODEModel_init_def dependent_of_def independent_of_def lookup_def
          make_signature_def Let_def)
  show ?thesis
    using i ODEModel_getitem_spec [OF i, of "Variable ''x''"]
      ODEModel_getitem_spec [OF i, of "Variable ''y''"]
    by simp
qed

lemma set_no_dependencies:
  "set (no_dependencies data) = {v. (v, []) \<in> set data}"
  by (force simp: no_dependencies_def)

lemma keys_remove_ordered:
  "set (map fst (remove_ordered ordered data)) = set (map fst data) - set ordered"
  by (force simp: remove_ordered_def)

lemma distinct_remove_ordered:
  "distinct (map fst data) \<Longrightarrow> distinct (map fst (remove_ordered ordered data))"
proof -
  assume d: "distinct (map fst data)"
  have "map fst (remove_ordered ordered data) = filter (\<lambda>k. k \<notin> set ordered) (map fst data)"
    by (induction data) (auto simp: remove_ordered_def)
  with d show ?thesis by simp
qed

lemma in_remove_ordered:
  "(v, deps') \<in> set (remove_ordered ordered data) \<longleftrightarrow>
     (\<exists>deps. (v, deps) \<in> set data \<and> v \<notin> set ordered \<and> deps' = filter (\<lambda>d. d \<notin> set ordered) deps)"
  by (auto simp: remove_ordered_def)

lemma closed_remove_ordered:
  "closed_data data \<Longrightarrow> closed_data (remove_ordered ordered data)"
  unfolding closed_data_def keys_remove_ordered
  by (fastforce simp: in_remove_ordered)

lemma graph_remove_ordered:
  "dependency_graph (remove_ordered ordered data) \<subseteq> dependency_graph data"
  by (auto simp: dependency_graph_def in_remove_ordered)

lemma toposort_loop_unfold:
  "toposort_loop data =
     (if no_dependencies data = [] then (if data = [] then Inr [] else Inl CircularDependencyError)
      else (case toposort_loop (remove_ordered (no_dependencies data) data) of
              Inl e \<Rightarrow> Inl e | Inr rest \<Rightarrow> Inr (no_dependencies data # rest)))"
  by (subst toposort_loop.simps) (simp add: Let_def)


lemma toposort_loop_set:
  "toposort_loop data = Inr layers \<Longrightarrow> distinct (map fst data) \<Longrightarrow>
     set (concat layers) = set (map fst data) \<and> distinct (concat layers) \<and> [] \<notin> set layers"
proof (induction data arbitrary: layers rule: toposort_loop.induct)
  case (1 data)
  let ?o = "no_dependencies data"
  show ?case
  proof (cases "?o = []")
    case True
    with "1.prems" have "data = []" "layers = []"
      by (subst (asm) toposort_loop_unfold, simp split: if_splits)+
    then show ?thesis by simp
  next
    case False
    with "1.prems" obtain rest where
      rest: "toposort_loop (remove_ordered ?o data) = Inr rest" and l: "layers = ?o # rest"
      by (subst (asm) toposort_loop_unfold) (auto split: sum.splits)
    from "1.IH"[OF refl False rest distinct_remove_ordered[OF "1.prems"(2)]]
    have ih: "set (concat rest) = set (map fst data) - set ?o" "distinct (concat rest)" "[] \<notin> set rest"
      unfolding keys_remove_ordered by blast+
    have sub: "set ?o \<subseteq> set (map fst data)" by (auto simp: no_dependencies_def)
    have "distinct ?o"
      unfolding no_dependencies_def using "1.prems"(2) by (simp add: distinct_map_filter)
    with ih sub l False show ?thesis by auto
  qed
qed

lemma toposort_loop_order:
  "toposort_loop data = Inr layers \<Longrightarrow> distinct (map fst data) \<Longrightarrow> closed_data data \<Longrightarrow>
   (v, deps) \<in> set data \<Longrightarrow> d \<in> set deps \<Longrightarrow>
   \<exists>i j. i < j \<and> j < length layers \<and> d \<in> set (layers ! i) \<and> v \<in> set (layers ! j)"
proof (induction data arbitrary: layers deps rule: toposort_loop.induct)
  case (1 data)
  let ?o = "no_dependencies data"
  let ?data' = "remove_ordered ?o data"
  have ne: "?o \<noteq> []"
  proof
    assume "?o = []"
    with "1.prems"(1) have "data = []"
      by (subst (asm) toposort_loop_unfold) (simp split: if_splits)
    with "1.prems"(4) show False by simp
  qed
  with "1.prems"(1) obtain rest where
    rest: "toposort_loop ?data' = Inr rest" and l: "layers = ?o # rest"
    by (subst (asm) toposort_loop_unfold) (auto split: sum.splits)
  have dist': "distinct (map fst ?data')" using "1.prems"(2) by (rule distinct_remove_ordered)
  have closed': "closed_data ?data'" using "1.prems"(3) by (rule closed_remove_ordered)
  have vno: "v \<notin> set ?o"
  proof
    assume "v \<in> set ?o"
    then have "(v, []) \<in> set data" by (simp add: set_no_dependencies)
    with "1.prems"(2,4) have "deps = []" by (meson eq_key_imp_eq_value)
    with "1.prems"(5) show False by simp
  qed
  let ?deps' = "filter (\<lambda>d. d \<notin> set ?o) deps"
  have vin: "(v, ?deps') \<in> set ?data'"
    using "1.prems"(4) vno by (auto simp: in_remove_ordered)
  show ?case
  proof (cases "d \<in> set ?o")
    case True
    from vin have "v \<in> set (map fst ?data')" by force
    with toposort_loop_set[OF rest dist'] have "v \<in> set (concat rest)" by simp
    then obtain l where "l \<in> set rest" "v \<in> set l" by auto
    then obtain j where "j < length rest" "v \<in> set (rest ! j)"
      by (auto simp: in_set_conv_nth)
    with True l show ?thesis
      by (intro exI[of _ 0] exI[of _ "Suc j"]) simp
  next
    case False
    with "1.prems"(5) have "d \<in> set ?deps'" by simp
    from "1.IH"[OF refl ne rest dist' closed' vin this]
    obtain i j where "i < j" "j < length rest" "d \<in> set (rest ! i)" "v \<in> set (rest ! j)" by blast
    with l show ?thesis
      by (intro exI[of _ "Suc i"] exI[of _ "Suc j"]) simp
  qed
qed

lemma finite_dependency_graph: "finite (dependency_graph data)"
proof -
  have "dependency_graph data \<subseteq> set (concat (map snd data)) \<times> set (map fst data)"
    by (force simp: dependency_graph_def)
  then show ?thesis by (rule finite_subset) simp
qed

lemma toposort_loop_total:
  "acyclic (dependency_graph data) \<Longrightarrow> closed_data data \<Longrightarrow> \<exists>layers. toposort_loop data = Inr layers"
proof (induction data rule: toposort_loop.induct)
  case (1 data)
  let ?o = "no_dependencies data"
  show ?case
  proof (cases "?o = []")
    case True
    have "data = []"
    proof (rule ccontr)
      assume "data \<noteq> []"
      then obtain x where x: "x \<in> set (map fst data)" by (cases data) auto
      have "wf (dependency_graph data)"
        using finite_dependency_graph "1.prems"(1) by (rule finite_acyclic_wf)
      from wfE_min[OF this x] obtain z where
        z: "z \<in> set (map fst data)" "\<And>y. (y, z) \<in> dependency_graph data \<Longrightarrow> y \<notin> set (map fst data)"
        by blast
      from z(1) obtain deps where zd: "(z, deps) \<in> set data" by auto
      have "deps = []"
      proof (cases deps)
        case (Cons y ys)
        with zd have "(y, z) \<in> dependency_graph data" by (auto simp: dependency_graph_def)
        moreover from zd Cons "1.prems"(2) have "y \<in> set (map fst data)"
          by (auto simp: closed_data_def)
        ultimately show ?thesis using z(2) by blast
      qed simp
      with zd have "z \<in> set ?o" by (simp add: set_no_dependencies)
      with True show False by simp
    qed
    with True show ?thesis by (subst toposort_loop_unfold) simp
  next
    case False
    have "acyclic (dependency_graph (remove_ordered ?o data))"
      using graph_remove_ordered "1.prems"(1) by (rule acyclic_subset[rotated])
    from "1.IH"[OF refl False this closed_remove_ordered[OF "1.prems"(2)]]
    obtain rest where "toposort_loop (remove_ordered ?o data) = Inr rest" by blast
    with False show ?thesis by (subst toposort_loop_unfold) simp
  qed
qed

lemma keys_discard_self: "map fst (discard_self data) = map fst data"
  by (induction data) (auto simp: discard_self_def)

lemma in_discard_self:
  "(v, deps') \<in> set (discard_self data) \<longleftrightarrow> (\<exists>deps. (v, deps) \<in> set data \<and> deps' = removeAll v deps)"
  by (force simp: discard_self_def)

lemma in_prepared:
  "(v, deps') \<in> set (prepared data) \<longleftrightarrow>
     (\<exists>deps. (v, deps) \<in> set data \<and> deps' = removeAll v deps)
     \<or> (v \<in> set (extra_items_in_deps (discard_self data)) \<and> deps' = [])"
  by (auto simp: prepared_def add_extra_items_def in_discard_self)

lemma distinct_prepared:
  "distinct (map fst data) \<Longrightarrow> distinct (map fst (prepared data))"
  by (auto simp: prepared_def add_extra_items_def keys_discard_self extra_items_in_deps_def comp_def
        distinct_map)

lemma closed_prepared: "closed_data (prepared data)"
proof -
  have "set deps \<subseteq> set (map fst (prepared data))" if "(v, deps) \<in> set (prepared data)" for v deps
  proof
    fix d assume d: "d \<in> set deps"
    with that have "(v, deps) \<in> set (discard_self data)"
      by (auto simp: prepared_def add_extra_items_def)
    with d have "d \<in> set (concat (map snd (discard_self data)))" by force
    then show "d \<in> set (map fst (prepared data))"
      by (auto simp: prepared_def add_extra_items_def extra_items_in_deps_def)
  qed
  then show ?thesis unfolding closed_data_def by blast
qed

lemma graph_prepared: "dependency_graph (prepared data) = dependency_graph data - Id"
  by (auto simp: dependency_graph_def in_prepared)

lemma toposort_eq: "toposort data = (if data = [] then Inr [] else toposort_loop (prepared data))"
  by (simp add: toposort_def prepared_def)

lemma prepared_Nil: "prepared [] = []"
  by (simp add: prepared_def add_extra_items_def discard_self_def extra_items_in_deps_def)

lemma toposort_eq': "toposort data = toposort_loop (prepared data)"
  by (cases "data = []") (simp_all add: toposort_eq prepared_Nil toposort_loop_unfold no_dependencies_def)

lemma toposort_total:
  assumes "acyclic (dependency_graph data - Id)"
  shows "\<exists>layers. toposort data = Inr layers"
  unfolding toposort_eq'
  using assms closed_prepared by (intro toposort_loop_total) (simp_all add: graph_prepared)


lemma index_of_append:
  "index_of (xs @ ys) x = (if x \<in> set xs then index_of xs x else length xs + index_of ys x)"
  by (induction xs) (auto simp: index_of_def)

lemma index_of_less: "x \<in> set xs \<Longrightarrow> index_of xs x < length xs"
  by (induction xs) (auto simp: index_of_def)

lemma flat_order:
  assumes g: "\<And>l. set (g l) = set l" "\<And>l. length (g l) = length l"
  shows "i < j \<Longrightarrow> j < length layers \<Longrightarrow> d \<in> set (layers ! i) \<Longrightarrow> v \<in> set (layers ! j)
     \<Longrightarrow> distinct (concat layers)
     \<Longrightarrow> index_of (concat (map g layers)) d < index_of (concat (map g layers)) v"
proof (induction layers arbitrary: i j)
  case Nil
  then show ?case by simp
next
  case (Cons l ls)
  from Cons.prems obtain j' where j: "j = Suc j'" by (cases j) auto
  with Cons.prems have "v \<in> set (ls ! j')" "ls ! j' \<in> set ls" by simp_all
  then have vls: "v \<in> set (concat ls)" by auto
  with Cons.prems(5) have vl: "v \<notin> set l" by auto
  show ?case
  proof (cases "d \<in> set l")
    case True
    then have "d \<in> set (g l)" by (simp add: g)
    then have "index_of (g l) d < length (g l)" by (rule index_of_less)
    with True vl show ?thesis by (simp add: index_of_append g)
  next
    case False
    with Cons.prems obtain i' where i: "i = Suc i'" by (cases i) auto
    from Cons.IH[of i' j'] Cons.prems i j
    have "index_of (concat (map g ls)) d < index_of (concat (map g ls)) v" by simp
    with False vl show ?thesis by (simp add: index_of_append g)
  qed
qed

lemma toposort_order:
  assumes t: "toposort data = Inr layers" and dist: "distinct (map fst data)"
    and g: "\<And>l. set (g l) = set l" "\<And>l. length (g l) = length l"
    and e: "(d, v) \<in> dependency_graph data" "d \<noteq> v"
  shows "index_of (concat (map g layers)) d < index_of (concat (map g layers)) v"
proof -
  from e obtain deps where "(v, deps) \<in> set data" "d \<in> set deps"
    by (auto simp: dependency_graph_def)
  with e(2) have in1: "(v, removeAll v deps) \<in> set (prepared data)" "d \<in> set (removeAll v deps)"
    by (auto simp: in_prepared)
  from t have tl: "toposort_loop (prepared data) = Inr layers" by (simp add: toposort_eq')
  from toposort_loop_order[OF tl distinct_prepared[OF dist] closed_prepared in1]
  obtain i j where ij: "i < j" "j < length layers" "d \<in> set (layers ! i)" "v \<in> set (layers ! j)"
    by blast
  from toposort_loop_set[OF tl distinct_prepared[OF dist]] have "distinct (concat layers)" by simp
  from flat_order[of g, OF g ij this] show ?thesis .
qed


lemma keys_prepared:
  "set (map fst (prepared data)) = set (map fst data) \<union> set (concat (map snd data))"
proof (intro equalityI subsetI)
  fix x assume "x \<in> set (map fst (prepared data))"
  then obtain deps' where "(x, deps') \<in> set (prepared data)" by auto
  then consider deps where "(x, deps) \<in> set data"
    | "x \<in> set (extra_items_in_deps (discard_self data))"
    by (auto simp: in_prepared)
  then show "x \<in> set (map fst data) \<union> set (concat (map snd data))"
  proof cases
    case 1
    then show ?thesis by force
  next
    case 2
    then obtain v deps' where "(v, deps') \<in> set (discard_self data)" "x \<in> set deps'"
      by (auto simp: extra_items_in_deps_def)
    then obtain deps where "(v, deps) \<in> set data" "x \<in> set deps"
      by (auto simp: in_discard_self)
    then show ?thesis by force
  qed
next
  fix x assume "x \<in> set (map fst data) \<union> set (concat (map snd data))"
  then have "x \<in> set (map fst data) \<or>
      (x \<notin> set (map fst data) \<and> (\<exists>v deps. (v, deps) \<in> set data \<and> x \<in> set deps))"
    by fastforce
  then consider "x \<in> set (map fst data)"
    | v deps where "x \<notin> set (map fst data)" "(v, deps) \<in> set data" "x \<in> set deps"
    by blast
  then show "x \<in> set (map fst (prepared data))"
  proof cases
    case 1
    then show ?thesis
      by (simp add: prepared_def add_extra_items_def keys_discard_self)
  next
    case 2
    then have "x \<noteq> v" by force
    with 2 have "(v, removeAll v deps) \<in> set (discard_self data)" "x \<in> set (removeAll v deps)"
      by (auto simp: in_discard_self)
    then have "x \<in> set (concat (map snd (discard_self data)))" by force
    with 2(1) have "x \<in> set (extra_items_in_deps (discard_self data))"
      by (simp add: extra_items_in_deps_def keys_discard_self)
    then show ?thesis
      by (simp add: prepared_def add_extra_items_def)
  qed
qed

lemma toposort_symbols:
  assumes t: "toposort data = Inr layers" and dist: "distinct (map fst data)"
  shows "set (concat layers) = set (map fst data) \<union> set (concat (map snd data))"
proof -
  from t have tl: "toposort_loop (prepared data) = Inr layers" by (simp add: toposort_eq')
  from toposort_loop_set[OF tl distinct_prepared[OF dist]]
  have "set (concat layers) = set (map fst (prepared data))" by simp
  then show ?thesis by (simp only: keys_prepared)
qed

lemma toposort_first_layer:
  assumes t: "toposort data = Inr layers" and ne: "layers \<noteq> []"
  shows "layers ! 0 = no_dependencies (prepared data)"
proof -
  from t have tl: "toposort_loop (prepared data) = Inr layers" by (simp add: toposort_eq')
  then show ?thesis using ne
    by (subst (asm) toposort_loop_unfold) (auto split: if_splits sum.splits)
qed

lemma toposort_bottom:
  assumes t: "toposort data = Inr layers" and dist: "distinct (map fst data)"
    and ac: "acyclic (dependency_graph data)"
    and g: "\<And>l. set (g l) = set l" "\<And>l. length (g l) = length l"
    and s: "s \<in> set (concat layers)" "has_no_dependencies data s"
    and u: "u \<in> set (concat layers)" "\<not> has_no_dependencies data u"
  shows "index_of (concat (map g layers)) s < index_of (concat (map g layers)) u"
proof -
  from t have tl: "toposort_loop (prepared data) = Inr layers" by (simp add: toposort_eq')
  note ls = toposort_loop_set[OF tl distinct_prepared[OF dist]]
  from s(1) have ne: "layers \<noteq> []" by auto
  note first = toposort_first_layer[OF t ne]
  have "(s, []) \<in> set (prepared data)"
  proof (cases "map_of data s")
    case None
    then have nk: "s \<notin> set (map fst data)" by (simp add: map_of_eq_None_iff)
    from ls have "set (concat layers) = set (map fst (prepared data))" by blast
    with s(1) have "s \<in> set (map fst (prepared data))" by blast
    then obtain deps' where d': "(s, deps') \<in> set (prepared data)" by auto
    with nk have "deps' = []" by (force simp: in_prepared)
    with d' show ?thesis by simp
  next
    case (Some deps)
    with s(2) have "deps = []" by (simp add: has_no_dependencies_def)
    with Some have "(s, []) \<in> set data" by (simp add: map_of_SomeD)
    then show ?thesis by (force simp: in_prepared)
  qed
  then have s0: "s \<in> set (layers ! 0)" by (simp add: first set_no_dependencies)
  from u(2) obtain deps where deps: "map_of data u = Some deps" "deps \<noteq> []"
    by (auto simp: has_no_dependencies_def split: option.splits)
  then have ud: "(u, deps) \<in> set data" by (simp add: map_of_SomeD)
  have "u \<notin> set deps"
  proof
    assume "u \<in> set deps"
    with ud have "(u, u) \<in> dependency_graph data" by (auto simp: dependency_graph_def)
    with ac show False by (auto simp: acyclic_def)
  qed
  then have "removeAll u deps = deps" by simp
  with ud have up: "(u, deps) \<in> set (prepared data)" by (force simp: in_prepared)
  have "u \<notin> set (layers ! 0)"
  proof
    assume "u \<in> set (layers ! 0)"
    then have "(u, []) \<in> set (prepared data)" by (simp add: first set_no_dependencies)
    with up distinct_prepared[OF dist] have "deps = []" by (meson eq_key_imp_eq_value)
    with deps show False by simp
  qed
  moreover from u(1) obtain l where "l \<in> set layers" "u \<in> set l" by auto
  then obtain j where j: "j < length layers" "u \<in> set (layers ! j)"
    by (auto simp: in_set_conv_nth)
  ultimately have "0 < j" by (cases j) auto
  from flat_order[of g, OF g this j(1) s0 j(2)] ls show ?thesis by simp
qed

lemma set_connectivity_sorted:
  "set (connectivity_mapping sep (sort_key f md)) = set (connectivity_mapping sep md)"
  by (simp add: connectivity_mapping_def)

lemma keys_connectivity: "map fst (connectivity_mapping sep md) = map fst md"
  by (induction md) (auto simp: connectivity_mapping_def)

text \<open>
  C3. For a model whose dependency graph is acyclic, \<open>ordered_symbols\<close> returns a list
  (it does not raise) in which every dependency \<open>d\<close> of a key \<open>v\<close> of the model occurs,
  as does \<open>v\<close>, with the index of \<open>d\<close> less than the index of \<open>v\<close>; and the
  symbols without dependencies form the bottom of the list: each of them comes before
  every symbol that has a dependency.
\<close>

theorem ordered_symbols_topological:
  assumes dist: "distinct (map fst (model_dict m))"
      and ac: "acyclic (dependency_graph (connectivity_mapping sep (model_dict m)))"
  shows "\<exists>symbols. ordered_symbols sep m = Inr symbols \<and>
           (\<forall>(v, deps) \<in> set (connectivity_mapping sep (model_dict m)). \<forall>d \<in> set deps.
               d \<in> set symbols \<and> v \<in> set symbols \<and> index_of symbols d < index_of symbols v) \<and>
           (\<forall>s \<in> set symbols. \<forall>u \<in> set symbols.
               has_no_dependencies (connectivity_mapping sep (model_dict m)) s \<and>
               \<not> has_no_dependencies (connectivity_mapping sep (model_dict m)) u
               \<longrightarrow> index_of symbols s < index_of symbols u)"
proof -
  let ?conn = "connectivity_mapping sep (model_dict m)"
  have dc: "distinct (map fst ?conn)" using dist by (simp add: keys_connectivity)
  have "acyclic (dependency_graph ?conn - Id)"
    using ac by (rule acyclic_subset) auto
  from toposort_total[OF this] obtain layers where t: "toposort ?conn = Inr layers" by blast
  let ?symbols = "concat (map (sort_key key_func) layers)"
  have os: "ordered_symbols sep m = Inr ?symbols" by (simp add: ordered_symbols_def t)
  have sets: "set ?symbols = set (concat layers)" by simp
  note sym = toposort_symbols[OF t dc]
  have 1: "d \<in> set ?symbols \<and> v \<in> set ?symbols \<and> index_of ?symbols d < index_of ?symbols v"
    if "(v, deps) \<in> set ?conn" "d \<in> set deps" for v deps d
  proof -
    from that have e: "(d, v) \<in> dependency_graph ?conn" by (auto simp: dependency_graph_def)
    have "d \<noteq> v" using e ac by (auto simp: acyclic_def)
    from toposort_order[OF t dc _ _ e this, of "sort_key key_func"]
    have "index_of ?symbols d < index_of ?symbols v" by simp
    moreover from that have "v \<in> set (concat layers)" "d \<in> set (concat layers)"
      unfolding sym by force+
    ultimately show ?thesis using sets by simp
  qed
  have 2: "index_of ?symbols s < index_of ?symbols u"
    if "s \<in> set ?symbols" "u \<in> set ?symbols" "has_no_dependencies ?conn s"
       "\<not> has_no_dependencies ?conn u" for s u
    using toposort_bottom[OF t dc ac, of "sort_key key_func" s u] that sets by simp
  show ?thesis using os 1 2 by blast
qed

lemma acyclic_rank:
  assumes "\<And>d v. (d, v) \<in> r \<Longrightarrow> f d < (f v :: nat)"
  shows "acyclic r"
proof -
  have "r \<subseteq> measure f" using assms by auto
  then have "wf r" by (rule wf_subset[rotated]) simp
  then show ?thesis by (rule wf_acyclic)
qed

lemma chain_model_acyclic:
  "acyclic (dependency_graph (connectivity_mapping (\<lambda>e. e) (model_dict chain_model)))"
proof (rule acyclic_rank)
  fix d v
  assume "(d, v) \<in> dependency_graph (connectivity_mapping (\<lambda>e. e) (model_dict chain_model))"
  then show "(if d = Variable ''y'' then 1 else if d = Variable ''z'' then 2 else (0::nat))
           < (if v = Variable ''y'' then 1 else if v = Variable ''z'' then 2 else 0)"
    by (auto simp: dependency_graph_def connectivity_mapping_def chain_model_def)
qed


lemma chain_model_ordered_symbols:
  "ordered_symbols (\<lambda>e. e) chain_model
     = Inr [Variable ''x'', Parameter ''a'', Variable ''y'', Variable ''z'']"
  by code_simp

theorem ordered_symbols_topological_witness:
  "distinct (map fst (model_dict chain_model))
   \<and> acyclic (dependency_graph (connectivity_mapping (\<lambda>e. e) (model_dict chain_model)))
   \<and> ordered_symbols (\<lambda>e. e) chain_model
         = Inr [Variable ''x'', Parameter ''a'', Variable ''y'', Variable ''z'']
   \<and> index_of [Variable ''x'', Parameter ''a'', Variable ''y'', Variable ''z''] (Variable ''y'')
       < index_of [Variable ''x'', Parameter ''a'', Variable ''y'', Variable ''z''] (Variable ''z'')
   \<and> has_no_dependencies (connectivity_mapping (\<lambda>e. e) (model_dict chain_model)) (Parameter ''a'')
   \<and> \<not> has_no_dependencies (connectivity_mapping (\<lambda>e. e) (model_dict chain_model)) (Variable ''y'')
   \<and> index_of [Variable ''x'', Parameter ''a'', Variable ''y'', Variable ''z''] (Parameter ''a'')
       < index_of [Variable ''x'', Parameter ''a'', Variable ''y'', Variable ''z''] (Variable ''y'')"
proof -
  have d: "distinct (map fst (model_dict chain_model))" by (simp add: chain_model_def)
  have yz: "(Variable ''z'', [Variable ''y'', Parameter ''a''])
              \<in> set (connectivity_mapping (\<lambda>e. e) (model_dict chain_model))"
    by (simp add: connectivity_mapping_def chain_model_def)
  have n1: "has_no_dependencies (connectivity_mapping (\<lambda>e. e) (model_dict chain_model)) (Parameter ''a'')"
    by (simp add: has_no_dependencies_def connectivity_mapping_def chain_model_def)
  have n2: "\<not> has_no_dependencies (connectivity_mapping (\<lambda>e. e) (model_dict chain_model)) (Variable ''y'')"
    by (simp add: has_no_dependencies_def connectivity_mapping_def chain_model_def)
  let ?conn = "connectivity_mapping (\<lambda>e. e) (model_dict chain_model)"
  from ordered_symbols_topological [OF d chain_model_acyclic]
  obtain symbols where os: "ordered_symbols (\<lambda>e. e) chain_model = Inr symbols"
    and A: "\<forall>(v, deps) \<in> set ?conn. \<forall>d \<in> set deps.
               d \<in> set symbols \<and> v \<in> set symbols \<and> index_of symbols d < index_of symbols v"
    and B: "\<forall>s \<in> set symbols. \<forall>u \<in> set symbols.
               has_no_dependencies ?conn s \<and> \<not> has_no_dependencies ?conn u
               \<longrightarrow> index_of symbols s < index_of symbols u"
    by blast
  from os have sy: "symbols = [Variable ''x'', Parameter ''a'', Variable ''y'', Variable ''z'']"
    by (simp add: chain_model_ordered_symbols)
  from A yz have 1: "index_of symbols (Variable ''y'') < index_of symbols (Variable ''z'')"
    by fastforce
  have "Parameter ''a'' \<in> set symbols" "Variable ''y'' \<in> set symbols" by (simp_all add: sy)
  with B n1 n2 have 2: "index_of symbols (Parameter ''a'') < index_of symbols (Variable ''y'')"
    by blast
  from d chain_model_acyclic os 1 2 n1 n2 show ?thesis unfolding sy by blast
qed

lemma graph_connectivity_sorted:
  "dependency_graph (connectivity_mapping sep (sort_key f md))
     = dependency_graph (connectivity_mapping sep md)"
  by (simp add: dependency_graph_def set_connectivity_sorted)





lemma init_from_dict_fields:
  assumes "init_from_dict sep md = Inr m"
  shows "\<exists>first_set rest.
           toposort (connectivity_mapping sep (sort_key (\<lambda>i. name (fst i)) md)) = Inr (first_set # rest)
         \<and> rest \<noteq> []
         \<and> model_dict m = sort_key (\<lambda>i. name (fst i)) md
         \<and> params m = filter isinstance_Parameter (sort_key name first_set)
         \<and> independent_vars m =
              filter (\<lambda>s. \<not> isinstance_Parameter s \<and> s \<notin> set (map fst (model_dict m)))
                (sort_key name first_set)
         \<and> dependent_vars m = sort_key name (last rest)
         \<and> interdependent_vars m = sort_key name (concat (butlast rest))
         \<and> signature m = map name (independent_vars m @ params m)
         \<and> distinct (signature m)"
proof -
  let ?smd = "sort_key (\<lambda>i. name (fst i)) md"
  from assms obtain ordered where t: "toposort (connectivity_mapping sep ?smd) = Inr ordered"
    by (cases "toposort (connectivity_mapping sep ?smd)") (simp_all add: init_from_dict_def)
  from assms t obtain first_set rest where o: "ordered = first_set # rest"
    by (cases ordered) (simp_all add: init_from_dict_def pop_first_def)
  from assms t o have ne: "rest \<noteq> []"
    by (auto simp: init_from_dict_def pop_first_def pop_last_def)
  let ?ind = "sort_key name first_set"
  let ?ps = "filter isinstance_Parameter ?ind"
  let ?ivs = "filter (\<lambda>s. \<not> isinstance_Parameter s \<and> s \<notin> set (map fst ?smd)) ?ind"
  from assms t o ne obtain sg where sg: "make_signature ?ivs ?ps = Inr sg"
    by (cases "make_signature ?ivs ?ps")
       (simp_all add: init_from_dict_def pop_first_def pop_last_def Let_def)
  from assms t o ne sg have m: "m = \<lparr> model_dict = ?smd, independent_vars = ?ivs,
       dependent_vars = sort_key name (last rest),
       interdependent_vars = sort_key name (concat (butlast rest)),
       params = ?ps,
       sigmas = map (\<lambda>v. (v, Variable (''sigma_'' @ name v))) (sort_key name (last rest)),
       signature = sg \<rparr>"
    by (simp add: init_from_dict_def pop_first_def pop_last_def Let_def)
  from sg have "sg = map name (?ivs @ ?ps)" "distinct sg"
    by (auto simp: make_signature_def Let_def split: if_splits)
  with t o ne m show ?thesis by simp
qed



lemma bind_too_many:
  assumes "length sg < length args"
  shows "bind sg args kwargs = Inl TypeError"
  using assms by (simp add: bind_def)















lemma distinct_map_sort_key:
  "distinct (map g (sort_key f xs)) = distinct (map g xs)"
proof -
  have "distinct (map g ys) \<longleftrightarrow> card (set (map g ys)) = length (map g ys)" for ys
    by (metis distinct_card card_distinct)
  from this[of "sort_key f xs"] this[of xs] show ?thesis by simp
qed






lemma linear_ode_init:
  "ODEModel_init (\<lambda>e. ([], [Parameter e]))
     [(Derivative (Variable ''y'') [Variable ''x''], ''a'')]
     [(Variable ''x'', 0), (Variable ''y'', 1)] = Inr linear_ode"
  by code_simp

lemma sorted_filter_plain: "sorted xs \<Longrightarrow> sorted (filter P xs)"
  by (rule sorted_wrt_filter)

lemma sorted_split_less:
  "sorted ts \<Longrightarrow> filter (\<lambda>t. t < x) ts @ filter (\<lambda>t. x \<le> t) ts = (ts :: 'a::linorder list)"
proof (induction ts)
  case Nil
  then show ?case by simp
next
  case (Cons y ys)
  show ?case
  proof (cases "y < x")
    case True
    with Cons show ?thesis by simp
  next
    case False
    with Cons.prems have "\<forall>t \<in> set (y # ys). x \<le> t" by auto
    then have "filter (\<lambda>t. t < x) (y # ys) = []" "filter (\<lambda>t. x \<le> t) (y # ys) = y # ys"
      by (auto simp: filter_empty_conv filter_id_conv)
    then show ?thesis by simp
  qed
qed

lemma filter_le_once:
  "sorted ts \<Longrightarrow> count_list ts x \<le> 1 \<Longrightarrow> x \<in> set ts
     \<Longrightarrow> filter (\<lambda>t. t \<le> x) ts = filter (\<lambda>t. t < x) ts @ [x :: 'a::linorder]"
proof (induction ts)
  case Nil
  then show ?case by simp
next
  case (Cons y ys)
  show ?case
  proof (cases "y = x")
    case True
    with Cons.prems have "count_list ys x = 0" by simp
    then have nx: "x \<notin> set ys" by (simp add: count_list_0_iff)
    from True Cons.prems have "\<forall>t \<in> set ys. x \<le> t" by simp
    with nx have "\<forall>t \<in> set ys. x < t" by (auto simp: order_less_le)
    then have "filter (\<lambda>t. t \<le> x) ys = []" "filter (\<lambda>t. t < x) ys = []"
      by (auto simp: filter_empty_conv)
    with True show ?thesis by simp
  next
    case False
    with Cons.prems have xs: "x \<in> set ys" by simp
    with Cons.prems have "y \<le> x" by auto
    with False have "y < x" by simp
    moreover have "count_list ys x \<le> 1" using Cons.prems False by simp
    ultimately show ?thesis using Cons xs by simp
  qed
qed

lemma filter_ge_notin:
  "x \<notin> set ts \<Longrightarrow> filter (\<lambda>t. x \<le> t) ts = filter (\<lambda>t. x < t) (ts :: 'a::linorder list)"
  by (induction ts) auto

lemma sorted_hd_least:
  "sorted xs \<Longrightarrow> x \<in> set xs \<Longrightarrow> \<forall>y \<in> set xs. x \<le> y \<Longrightarrow> hd xs = (x :: 'a::linorder)"
  by (cases xs) (auto simp: order_antisym)

lemma masked_map:
  "map fst (filter snd (zip (map \<phi> L) (map P L))) = map \<phi> (filter P L)"
  by (induction L) auto

lemma eval_in:
  fixes ts :: "'a::linorder list"
  assumes srt: "sorted ts" and once: "count_list ts t0 \<le> 1" and tin: "t0 \<in> set ts"
      and ex: "exact_on odeint m y0 t0 a \<phi>"
  shows "rev (drop 1 (odeint m y0 (rev (filter (\<lambda>t. t \<le> t0) ts)) a))
           @ odeint m y0 (filter (\<lambda>t. t0 \<le> t) ts) a = map \<phi> ts"
proof -
  let ?lt = "filter (\<lambda>t. t < t0) ts" and ?ge = "filter (\<lambda>t. t0 \<le> t) ts"
  let ?le = "filter (\<lambda>t. t \<le> t0) ts"
  have le: "?le = ?lt @ [t0]" using srt once tin by (rule filter_le_once)
  have "sorted ?ge" using srt by (rule sorted_filter_plain)
  moreover have "t0 \<in> set ?ge" using tin by simp
  moreover from this have "?ge \<noteq> []" by (metis empty_iff empty_set)
  moreover have "hd ?ge = t0"
    by (rule sorted_hd_least) (use srt tin in \<open>auto intro: sorted_filter_plain\<close>)
  ultimately have big: "odeint m y0 ?ge a = map \<phi> ?ge"
    using ex unfolding exact_on_def by blast
  have "sorted (rev (rev ?le))" using srt by (simp add: sorted_filter_plain)
  moreover have "rev ?le \<noteq> []" "hd (rev ?le) = t0" by (simp_all add: le)
  ultimately have small: "odeint m y0 (rev ?le) a = map \<phi> (rev ?le)"
    using ex unfolding exact_on_def by blast
  have "rev (drop 1 (map \<phi> (rev ?le))) = map \<phi> ?lt"
    by (simp add: le rev_map)
  with big small have "rev (drop 1 (odeint m y0 (rev ?le) a)) @ odeint m y0 ?ge a
      = map \<phi> (?lt @ ?ge)" by simp
  with sorted_split_less[OF srt, of t0] show ?thesis by simp
qed

lemma eval_notin:
  fixes ts :: "'a::linorder list"
  assumes srt: "sorted ts" and tin: "t0 \<notin> set ts"
      and ex: "exact_on odeint m y0 t0 a \<phi>"
  shows "mask_rows
           (rev (drop 1 (odeint m y0 ([t0] @ rev (filter (\<lambda>t. t < t0) ts)) a))
              @ odeint m y0 ([t0] @ filter (\<lambda>t. t0 < t) ts) a)
           (map (\<lambda>t. t \<noteq> t0)
              (butlast (rev ([t0] @ rev (filter (\<lambda>t. t < t0) ts))) @ [t0] @ filter (\<lambda>t. t0 < t) ts))
         = Inr (map \<phi> ts)"
proof -
  let ?lt = "filter (\<lambda>t. t < t0) ts" and ?gt = "filter (\<lambda>t. t0 < t) ts"
  have "sorted (t0 # ?gt)" using srt by (auto intro: sorted_filter_plain less_imp_le)
  then have big: "odeint m y0 ([t0] @ ?gt) a = map \<phi> ([t0] @ ?gt)"
    using ex unfolding exact_on_def by simp
  have "sorted (rev (t0 # rev ?lt))" using srt
    by (auto simp: sorted_append intro: sorted_filter_plain less_imp_le)
  then have small: "odeint m y0 ([t0] @ rev ?lt) a = map \<phi> ([t0] @ rev ?lt)"
    using ex unfolding exact_on_def by simp
  let ?L = "?lt @ [t0] @ ?gt"
  have ans: "rev (drop 1 (odeint m y0 ([t0] @ rev ?lt) a)) @ odeint m y0 ([t0] @ ?gt) a = map \<phi> ?L"
    unfolding big small by (simp add: rev_map)
  have tot: "butlast (rev ([t0] @ rev ?lt)) @ [t0] @ ?gt = ?L" by simp
  have "filter (\<lambda>t. t \<noteq> t0) ?lt = ?lt" "filter (\<lambda>t. t \<noteq> t0) ?gt = ?gt"
    by (simp_all only: filter_id_conv) auto
  then have keep: "filter (\<lambda>t. t \<noteq> t0) ?L = ?lt @ ?gt"
    by (simp only: filter_append filter.simps) simp
  have "?lt @ ?gt = ts"
    using sorted_split_less[OF srt, of t0] filter_ge_notin[OF tin] by simp
  with keep have "map \<phi> (filter (\<lambda>t. t \<noteq> t0) ?L) = map \<phi> ts" by simp
  then show ?thesis
    unfolding ans tot mask_rows_def by (simp only: masked_map length_map if_False refl not_True_eq_False)
qed

text \<open>
  C5 (as amended). For an ODE model called with arguments that bind, a time axis that is
  ascending and holds the initial time at most once, and an integrator that is exact:
  the call returns, for each dependent variable, one value per requested time point, in
  the requested order, namely the value of the trajectory at that time point. So the
  initial time is in the output exactly where it was requested, and is not in it when
  it was not requested.
\<close>

theorem ODEModel_eval_components_ascending:
  fixes m :: "('e, 'a::linorder) ODEModel"
  assumes b: "bind (signature m) args kwargs = Inr bound"
      and iv: "independent_vars m = iv # ivs"
      and tl: "bound (name iv) = Some t_like"
      and y0: "mapM (lookup (initial m)) (dependent_vars m) = Inr y0"
      and t0: "lookup (initial m) iv = Inr t0"
      and a: "mapM (\<lambda>param. lookup_kwargs bound (name param)) (params m) = Inr a"
      and ex: "exact_on odeint m y0 t0 a \<phi>"
      and srt: "sorted (time_axis t_like)"
      and once: "count_list (time_axis t_like) t0 \<le> 1"
  shows "ODEModel_eval_components odeint m args kwargs
           = Inr (transposed (length y0) (map \<phi> (time_axis t_like)))"
proof (cases "t0 \<in> set (time_axis t_like)")
  case True
  from eval_in[OF srt once True ex] True b iv tl y0 t0 a show ?thesis
    by (simp add: ODEModel_eval_components_def lookup_kwargs_def Let_def)
next
  case False
  from eval_notin[OF srt False ex] False b iv tl y0 t0 a show ?thesis
    by (simp add: ODEModel_eval_components_def lookup_kwargs_def Let_def)
qed

lemma linear_odeint_exact:
  "exact_on linear_odeint linear_ode [1] 0 [Scalar a] (\<lambda>t. [1 + a * t])"
  by (simp add: exact_on_def)

text \<open>The round trip of the specification: \<open>dy/dx = a\<close>, \<open>y(0) = 1\<close>, evaluated at
  \<open>x = [-2, -1, 0, 1, 2]\<close> with the exact integrator, is \<open>1 + a * x\<close> at each point;
  without the initial time in the request, its value is not in the result.\<close>

lemma linear_ode_round_trip:
  "ODEModel_eval_components linear_odeint linear_ode [Array [-2, -1, 0, 1, 2]] [(''a'', Scalar a)]
     = Inr [[1 + a * (-2), 1 + a * (-1), 1 + a * 0, 1 + a * 1, 1 + a * 2]]"
  "ODEModel_eval_components linear_odeint linear_ode [Array [-2, -1, 1, 2]] [(''a'', Scalar a)]
     = Inr [[1 + a * (-2), 1 + a * (-1), 1 + a * 1, 1 + a * 2]]"
  by (simp_all add: ODEModel_eval_components_def linear_ode_def bind_def lookup_kwargs_def
        lookup_def Let_def transposed_def mask_rows_def)

theorem ODEModel_eval_components_ascending_witness:
  "bind (signature linear_ode) [Array [-2, -1, 0, 1, 2 :: int]] [(''a'', Scalar 3)]
      = Inr (map_of [(''x'', Array [-2, -1, 0, 1, 2]), (''a'', Scalar 3)])
   \<and> independent_vars linear_ode = [Variable ''x'']
   \<and> mapM (lookup (initial linear_ode)) (dependent_vars linear_ode) = Inr [1]
   \<and> lookup (initial linear_ode) (Variable ''x'') = Inr 0
   \<and> exact_on linear_odeint linear_ode [1] 0 [Scalar 3] (\<lambda>t. [1 + 3 * t])
   \<and> sorted (time_axis (Array [-2, -1, 0, 1, 2 :: int]))
   \<and> count_list (time_axis (Array [-2, -1, 0, 1, 2 :: int])) 0 \<le> 1
   \<and> ODEModel_eval_components linear_odeint linear_ode [Array [-2, -1, 0, 1, 2]] [(''a'', Scalar 3)]
       = Inr [[-5, -2, 1, 4, 7]]"
proof -
  let ?bound = "map_of [(''x'', Array [-2, -1, 0, 1, 2 :: int]), (''a'', Scalar 3)]"
  have b: "bind (signature linear_ode) [Array [-2, -1, 0, 1, 2]] [(''a'', Scalar 3)] = Inr ?bound"
    by (simp add: bind_def linear_ode_def)
  have iv: "independent_vars linear_ode = Variable ''x'' # []" by (simp add: linear_ode_def)
  have tl: "?bound (name (Variable ''x'')) = Some (Array [-2, -1, 0, 1, 2])" by simp
  have y0: "mapM (lookup (initial linear_ode)) (dependent_vars linear_ode) = Inr [1]"
    by (simp add: linear_ode_def lookup_def)
  have t0: "lookup (initial linear_ode) (Variable ''x'') = Inr 0"
    by (simp add: linear_ode_def lookup_def)
  have a: "mapM (\<lambda>param. lookup_kwargs ?bound (name param)) (params linear_ode) = Inr [Scalar 3]"
    by (simp add: linear_ode_def lookup_kwargs_def)
  note ex = linear_odeint_exact[of 3]
  have srt: "sorted (time_axis (Array [-2, -1, 0, 1, 2 :: int]))" by simp
  have once: "count_list (time_axis (Array [-2, -1, 0, 1, 2 :: int])) 0 \<le> 1" by simp
  from ODEModel_eval_components_ascending [OF b iv tl y0 t0 a ex srt once]
  have "ODEModel_eval_components linear_odeint linear_ode [Array [-2, -1, 0, 1, 2]] [(''a'', Scalar 3)]
       = Inr [[-5, -2, 1, 4, 7]]"
    by (simp add: transposed_def)
  with b iv y0 t0 ex srt once show ?thesis by simp
qed

text \<open>
  C5 (as stated). The claim is about every requested vector of time points. With the
  exact integrator of \<open>dy/dx = a\<close>, \<open>y(0) = 1\<close>, \<open>a = 2\<close>: the request \<open>[1, -1]\<close>, whose
  values are \<open>3\<close> and \<open>-1\<close>, is answered in ascending order of time and not in the
  requested order; and the request \<open>[0, 0, 1]\<close> of three points is answered with four
  values, the initial time being three times in the output.
\<close>

theorem ODEModel_eval_components_not_requested_order:
  "ODEModel_eval_components linear_odeint linear_ode [Array [1, -1]] [(''a'', Scalar 2)]
     = Inr [[-1, 3]]
   \<and> ODEModel_eval_components linear_odeint linear_ode [Array [0, 0, 1]] [(''a'', Scalar 2)]
     = Inr [[1, 1, 1, 3]]"
  by (simp add: ODEModel_eval_components_def linear_ode_def bind_def lookup_kwargs_def
        lookup_def Let_def transposed_def mask_rows_def)

lemma eq_loop_iff:
  "length xs = length ys \<Longrightarrow>
     eq_loop xp xs ys \<longleftrightarrow>
       map fst xs = map fst ys \<and> map (\<lambda>i. xp (snd i)) xs = map (\<lambda>i. xp (snd i)) ys"
  by (induction xs ys rule: list_induct2) (auto split: if_splits)

text \<open>
  C8 (as amended). Two models of at most 256 components are equal exactly when they have
  the same keys, in the same order, and the expanded forms of the expressions of each key
  are structurally identical.
\<close>

theorem BaseModel_eq_expanded:
  assumes "length (model_dict self) \<le> 256"
  shows "BaseModel_eq xp self other \<longleftrightarrow>
           map fst (model_dict self) = map fst (model_dict other)
           \<and> map (\<lambda>i. xp (snd i)) (model_dict self) = map (\<lambda>i. xp (snd i)) (model_dict other)"
proof (cases "length (model_dict self) = length (model_dict other)")
  case True
  with assms have "\<not> is_not (length (model_dict self)) (length (model_dict other))"
    by (simp add: is_not_def)
  with eq_loop_iff[OF True] show ?thesis by (simp add: BaseModel_eq_def)
next
  case False
  then have "map fst (model_dict self) \<noteq> map fst (model_dict other)"
    by (metis length_map)
  with False show ?thesis by (simp add: BaseModel_eq_def is_not_def)
qed

text \<open>The comparison of the two lengths by identity makes a model of more than 256
  components unequal to every model, itself included.\<close>

lemma BaseModel_eq_large:
  "256 < length (model_dict self) \<Longrightarrow> \<not> BaseModel_eq xp self other"
  by (simp add: BaseModel_eq_def is_not_def)

theorem BaseModel_eq_expanded_witness:
  "length (model_dict product_model) \<le> 256
   \<and> BaseModel_eq expand product_model sum_model
   \<and> model_dict product_model \<noteq> model_dict sum_model
   \<and> map fst (model_dict product_model) = map fst (model_dict sum_model)
   \<and> map (\<lambda>i. expand (snd i)) (model_dict product_model)
       = map (\<lambda>i. expand (snd i)) (model_dict sum_model)"
proof -
  have l: "length (model_dict product_model) \<le> 256" by (simp add: product_model_def)
  have k: "map fst (model_dict product_model) = map fst (model_dict sum_model)"
    by (simp add: product_model_def sum_model_def)
  have e: "map (\<lambda>i. expand (snd i)) (model_dict product_model)
       = map (\<lambda>i. expand (snd i)) (model_dict sum_model)"
    by (simp add: product_model_def sum_model_def)
  have n: "model_dict product_model \<noteq> model_dict sum_model"
    by (simp add: product_model_def sum_model_def)
  from BaseModel_eq_expanded [OF l, of expand sum_model] k e
  have "BaseModel_eq expand product_model sum_model" by simp
  with l k e n show ?thesis by simp
qed

lemma product_model_init:
  "init_from_dict seperate_symbols (model_dict product_model) = Inr product_model"
  "init_from_dict seperate_symbols (model_dict sum_model) = Inr sum_model"
  by code_simp+

lemma trig_model_init:
  "init_from_dict seperate_symbols [(Variable ''y'', trig_expr)] = Inr trig_model"
  "init_from_dict seperate_symbols [(Variable ''y'', affine_expr)] = Inr affine_model"
  by code_simp+

lemma trig_affine_equivalent: "eval_expr kwargs trig_expr = eval_expr kwargs affine_expr"
proof (cases "kwargs ''x''")
  case None
  then show ?thesis by (simp add: trig_expr_def affine_expr_def lookup_kwargs_def)
next
  case (Some v)
  have 1: "x + (sin x)\<^sup>2 + (cos x)\<^sup>2 = x + 1" for x :: real
    using sin_cos_squared_add[of x] by simp
  show ?thesis
  proof (cases v)
    case (Scalar x)
    with Some 1 show ?thesis by (simp add: trig_expr_def affine_expr_def lookup_kwargs_def)
  next
    case (Array xs)
    have "map (\<lambda>(x, y). x + y) (zip (map (\<lambda>(x, y). x + y) (zip xs (map ((\<lambda>x. x\<^sup>2) \<circ> sin) xs)))
              (map ((\<lambda>x. x\<^sup>2) \<circ> cos) xs)) = map (\<lambda>x. x + 1) xs"
      by (induction xs) (simp_all add: 1)
    with Some Array show ?thesis
      by (simp add: trig_expr_def affine_expr_def lookup_kwargs_def)
  qed
qed

text \<open>
  C8 (as stated). The claim: two models are equal exactly when they have the same keys and
  pairwise algebraically equivalent expressions. \<open>x + sin(x)**2 + cos(x)**2\<close> and
  \<open>x + 1\<close> have the same value for every input, and the two models, each accepted by
  the constructor, are not equal: \<open>expand\<close> leaves both expressions as they are.
\<close>

theorem BaseModel_eq_not_algebraic:
  "init_from_dict seperate_symbols [(Variable ''y'', trig_expr)] = Inr trig_model
   \<and> init_from_dict seperate_symbols [(Variable ''y'', affine_expr)] = Inr affine_model
   \<and> map fst (model_dict trig_model) = map fst (model_dict affine_model)
   \<and> (\<forall>kwargs. eval_expr kwargs trig_expr = eval_expr kwargs affine_expr)
   \<and> \<not> BaseModel_eq expand trig_model affine_model"
proof -
  have "\<not> BaseModel_eq expand trig_model affine_model"
    by (simp add: BaseModel_eq_def is_not_def trig_model_def affine_model_def trig_expr_def
          affine_expr_def)
  moreover have "map fst (model_dict trig_model) = map fst (model_dict affine_model)"
    by (simp add: trig_model_def affine_model_def)
  ultimately show ?thesis using trig_model_init trig_affine_equivalent by blast
qed

lemma setitem_mid:
  "k \<notin> fst ` set pre \<Longrightarrow> setitem (pre @ (k, v) # post) k v' = pre @ (k, v') # post"
  by (induction pre) auto

lemma lookup_mid: "k \<notin> fst ` set pre \<Longrightarrow> lookup (pre @ (k, v) # post) k = Inr v"
  by (induction pre) (auto simp: lookup_def)

text \<open>The loop multiplies every expression of the dict at the address it is given, and
  writes to no other address.\<close>

lemma neg_loop_run:
  assumes "r < length h" "h ! r = pre @ post" "distinct (map fst (pre @ post))"
  shows "neg_loop mul r (map fst post) h
           = Inr (h[r := pre @ map (apsnd (\<lambda>e. mul e (- 1))) post])"
  using assms
proof (induction post arbitrary: pre h)
  case Nil
  then have "h ! r = pre" by simp
  then have "h[r := pre] = h" by (metis list_update_id)
  then show ?case by simp
next
  case (Cons p post)
  obtain k e where p: "p = (k, e)" by (cases p)
  from Cons.prems(3) p have k: "k \<notin> fst ` set pre" by auto
  let ?pre = "pre @ [(k, mul e (- 1))]"
  let ?h = "h[r := ?pre @ post]"
  from Cons.prems p k have l: "lookup (h ! r) k = Inr e" by (simp add: lookup_mid)
  from Cons.prems p k have s: "setitem (h ! r) k (mul e (- 1)) = ?pre @ post"
    by (simp add: setitem_mid)
  have "neg_loop mul r (map fst post) ?h
          = Inr (?h[r := ?pre @ map (apsnd (\<lambda>e. mul e (- 1))) post])"
    using Cons.prems p by (intro Cons.IH) auto
  with l s p show ?case by simp
qed

lemma insort_key_apsnd:
  "insort_key (\<lambda>i. f (fst i)) (apsnd g x) (map (apsnd g) xs)
     = map (apsnd g) (insort_key (\<lambda>i. f (fst i)) x xs)"
  by (induction xs) auto

lemma sort_key_apsnd:
  "sort_key (\<lambda>i. f (fst i)) (map (apsnd g) xs) = map (apsnd g) (sort_key (\<lambda>i. f (fst i)) xs)"
  by (induction xs) (simp_all add: insort_key_apsnd)

lemma connectivity_apsnd:
  "\<forall>e. sep (g e) = sep e \<Longrightarrow>
     connectivity_mapping sep (map (apsnd g) md) = connectivity_mapping sep md"
  by (simp add: connectivity_mapping_def case_prod_beta)

text \<open>A change of the expressions that keeps their symbols changes nothing of what the
  constructor computes but the \<open>model_dict\<close>.\<close>

lemma init_from_dict_apsnd:
  assumes "\<forall>e. sep (g e) = sep e" and "init_from_dict sep md = Inr m"
  shows "init_from_dict sep (map (apsnd g) md)
           = Inr (m\<lparr> model_dict := map (apsnd g) (model_dict m) \<rparr>)"
proof -
  let ?f = "\<lambda>i. name (fst i)"
  have c: "connectivity_mapping sep (map (apsnd g) (sort_key ?f md))
             = connectivity_mapping sep (sort_key ?f md)"
    using assms(1) by (rule connectivity_apsnd)
  have k: "fst ` apsnd g ` set md = fst ` set md" by force
  from assms(2) show ?thesis
    unfolding init_from_dict_def Let_def sort_key_apsnd c
    by (auto simp: k split: sum.splits prod.splits)
qed

text \<open>The constructor applied to the \<open>model_dict\<close> of a model it built builds the same
  model.\<close>

lemma init_from_dict_idem:
  assumes "init_from_dict sep md = Inr m"
  shows "init_from_dict sep (model_dict m) = Inr m"
proof -
  let ?f = "\<lambda>i. name (fst i)"
  from init_from_dict_fields[OF assms] have m: "model_dict m = sort_key ?f md" by blast
  have "sort_key ?f (sort_key ?f md) = sort_key ?f md"
    by (rule sort_key_id_if_sorted) simp
  then have "init_from_dict sep (sort_key ?f md) = init_from_dict sep md"
    by (simp add: init_from_dict_def)
  with m assms show ?thesis by simp
qed

text \<open>When the constructor succeeds: the keys are distinct, the dependency graph has no
  cycle but for self-dependencies, some key depends on another symbol, and the symbols
  have different names.\<close>

lemma init_from_dict_total:
  assumes dist: "distinct (map fst md)"
    and ac: "acyclic (dependency_graph (connectivity_mapping sep md) - Id)"
    and dep: "(v, e) \<in> set md" "d \<in> set (fst (sep e) @ snd (sep e))" "d \<noteq> v"
    and names: "inj_on name (set (map fst md)
                  \<union> set (concat (map snd (connectivity_mapping sep md))))"
  shows "\<exists>m. init_from_dict sep md = Inr m"
proof -
  let ?smd = "sort_key (\<lambda>i. name (fst i)) md"
  let ?conn = "connectivity_mapping sep ?smd"
  have dc: "distinct (map fst ?conn)"
    using dist by (simp add: keys_connectivity distinct_map_sort_key)
  from ac have "acyclic (dependency_graph ?conn - Id)" by (simp add: graph_connectivity_sorted)
  from toposort_total[OF this] obtain layers where t: "toposort ?conn = Inr layers" by blast
  then have tl: "toposort_loop (prepared ?conn) = Inr layers" by (simp add: toposort_eq')
  note ls = toposort_loop_set[OF tl distinct_prepared[OF dc]]
  let ?deps = "remdups (fst (sep e) @ snd (sep e))"
  from dep(1) have "(v, ?deps) \<in> set ?conn" by (force simp: connectivity_mapping_def)
  with dep(2,3) have "(v, removeAll v ?deps) \<in> set (prepared ?conn)" "d \<in> set (removeAll v ?deps)"
    by (auto simp: in_prepared)
  from toposort_loop_order[OF tl distinct_prepared[OF dc] closed_prepared this]
  have len: "2 \<le> length layers" by auto
  then obtain first_set rest where l0: "layers = first_set # rest"
    by (cases layers) auto
  with len have l: "layers = first_set # rest" "rest \<noteq> []" by auto
  let ?ind = "sort_key name first_set"
  let ?ps = "filter isinstance_Parameter ?ind"
  let ?ivs = "filter (\<lambda>s. \<not> isinstance_Parameter s \<and> s \<notin> set (map fst ?smd)) ?ind"
  from ls l have df: "distinct first_set" by simp
  then have di: "distinct (?ivs @ ?ps)" by auto
  from toposort_symbols[OF t dc] l
  have "set first_set \<subseteq> set (map fst ?conn) \<union> set (concat (map snd ?conn))" by auto
  also have "\<dots> = set (map fst md) \<union> set (concat (map snd (connectivity_mapping sep md)))"
    by (simp add: connectivity_mapping_def case_prod_beta image_image)
  finally have "inj_on name (set (?ivs @ ?ps))"
    using names by (auto intro: inj_on_subset)
  with di have "distinct (map name (?ivs @ ?ps))" by (simp only: distinct_map)
  then have sg: "make_signature ?ivs ?ps = Inr (map name (?ivs @ ?ps))"
    by (simp add: make_signature_def)
  from t l sg show ?thesis
    by (simp add: init_from_dict_def pop_first_def pop_last_def Let_def)
qed

text \<open>What \<open>-self\<close> returns and allocates, for an instance whose \<open>model_dict\<close> the
  constructor stored: the copy, negated, and the dict of the new instance.\<close>

lemma BaseModel_neg_run:
  assumes r: "model_dict_ref self < length h"
    and d: "h ! model_dict_ref self = model_dict (attributes self)"
    and c: "init_from_dict sep md = Inr (attributes self)"
    and dist: "distinct (map fst md)"
    and cas: "\<forall>e. sep (mul e (- 1)) = sep e"
  shows "BaseModel_neg sep mul h self =
           Inr (h @ [map (apsnd (\<lambda>e. mul e (- 1))) (model_dict (attributes self)),
                     map (apsnd (\<lambda>e. mul e (- 1))) (model_dict (attributes self))],
                \<lparr> model_dict_ref = Suc (length h),
                  attributes = (attributes self)
                    \<lparr> model_dict := map (apsnd (\<lambda>e. mul e (- 1))) (model_dict (attributes self)) \<rparr> \<rparr>)"
proof -
  let ?d = "model_dict (attributes self)"
  let ?nd = "map (apsnd (\<lambda>e. mul e (- 1))) ?d"
  from init_from_dict_fields[OF c] have "?d = sort_key (\<lambda>i. name (fst i)) md" by blast
  with dist have dd: "distinct (map fst ?d)" by (simp add: distinct_map_sort_key)
  have "neg_loop mul (length h) (map fst ?d) (h @ [?d])
          = Inr ((h @ [?d])[length h := [] @ ?nd])"
    using dd by (intro neg_loop_run) simp_all
  then have loop: "neg_loop mul (length h) (map fst ?d) (h @ [?d]) = Inr (h @ [?nd])" by simp
  have init: "init_from_dict sep ?nd = Inr ((attributes self)\<lparr> model_dict := ?nd \<rparr>)"
    using cas init_from_dict_idem[OF c] by (rule init_from_dict_apsnd)
  from loop init d show ?thesis
    by (simp add: BaseModel_neg_def BaseModel_init_def Let_def)
qed

lemma neg_neg_run:
  assumes r: "model_dict_ref self < length h"
    and d: "h ! model_dict_ref self = model_dict (attributes self)"
    and c: "init_from_dict sep md = Inr (attributes self)"
    and dist: "distinct (map fst md)"
    and cas: "\<forall>e. sep (mul e (- 1)) = sep e"
  shows "neg_neg sep mul h self =
           Inr (h @ [map (apsnd (\<lambda>e. mul e (- 1))) (model_dict (attributes self)),
                     map (apsnd (\<lambda>e. mul e (- 1))) (model_dict (attributes self)),
                     map (apsnd (\<lambda>e. mul (mul e (- 1)) (- 1))) (model_dict (attributes self)),
                     map (apsnd (\<lambda>e. mul (mul e (- 1)) (- 1))) (model_dict (attributes self))],
                \<lparr> model_dict_ref = length h + 3,
                  attributes = (attributes self)
                    \<lparr> model_dict := map (apsnd (\<lambda>e. mul (mul e (- 1)) (- 1)))
                                       (model_dict (attributes self)) \<rparr> \<rparr>)"
proof -
  let ?d = "model_dict (attributes self)"
  let ?nd = "map (apsnd (\<lambda>e. mul e (- 1))) ?d"
  let ?m1 = "\<lparr> model_dict_ref = Suc (length h),
               attributes = (attributes self)\<lparr> model_dict := ?nd \<rparr> \<rparr>"
  let ?h1 = "h @ [?nd, ?nd]"
  note one = BaseModel_neg_run[where sep=sep and mul=mul, OF r d c dist cas]
  from init_from_dict_fields[OF c] have "?d = sort_key (\<lambda>i. name (fst i)) md" by blast
  with dist have dd: "distinct (map fst ?nd)" by (simp add: distinct_map_sort_key comp_def)
  have c1: "init_from_dict sep ?nd = Inr (attributes ?m1)"
    using init_from_dict_apsnd[where sep=sep and g="\<lambda>e. mul e (- 1)", OF cas init_from_dict_idem[OF c]]
    by simp
  have r1: "model_dict_ref ?m1 < length ?h1" by simp
  have d1: "?h1 ! model_dict_ref ?m1 = model_dict (attributes ?m1)"
    by (simp add: nth_append)
  from BaseModel_neg_run[where sep=sep and mul=mul, OF r1 d1 c1 dd cas] one show ?thesis
    by (simp add: neg_neg_def comp_def apsnd_def map_prod_def case_prod_beta)
qed

lemma BaseModel_init_fields:
  assumes "BaseModel_init sep h0 model = Inr (h, self)"
  shows "model_dict_ref self < length h"
    and "h ! model_dict_ref self = model_dict (attributes self)"
    and "init_from_dict sep (h0 ! model) = Inr (attributes self)"
    and "h = h0 @ [model_dict (attributes self)]"
  using assms by (auto simp: BaseModel_init_def split: sum.splits)

text \<open>
  Negation does not change the model: \<open>-self\<close> returns a new instance whose expressions are those of
  \<open>self\<close> times \<open>-1\<close>, and every dict that existed before the call, the \<open>model_dict\<close> of
  \<open>self\<close> among them, is what it was.
\<close>

lemma BaseModel_neg_keeps_original:
  assumes init: "BaseModel_init sep h0 model = Inr (h, self)"
    and dist: "distinct (map fst (h0 ! model))"
    and cas: "\<forall>e. sep (mul e (- 1)) = sep e"
  shows "\<exists>h1 m1. BaseModel_neg sep mul h self = Inr (h1, m1)
           \<and> take (length h) h1 = h
           \<and> the_model h1 self = the_model h self
           \<and> model_dict (the_model h1 m1)
               = map (apsnd (\<lambda>e. mul e (- 1))) (model_dict (the_model h self))"
proof -
  note f = BaseModel_init_fields[OF init]
  from BaseModel_neg_run[where sep=sep and mul=mul, OF f(1,2,3) dist cas] f(1,2)
  show ?thesis by (simp add: the_model_def nth_append)
qed

text \<open>
  For a model of at most 256 components, and with what SymPy guarantees of its product
  as hypotheses: negating twice gives an instance equal to
  \<open>self\<close>, and \<open>self\<close> is what it was.
\<close>

lemma BaseModel_neg_neg_eq:
  assumes init: "BaseModel_init sep h0 model = Inr (h, self)"
    and dist: "distinct (map fst (h0 ! model))"
    and cas: "\<forall>e. sep (mul e (- 1)) = sep e"
    and cas2: "\<forall>e \<in> snd ` set (h0 ! model). xp (mul (mul e (- 1)) (- 1)) = xp e"
    and small: "length (h0 ! model) \<le> 256"
  shows "\<exists>h2 m2. neg_neg sep mul h self = Inr (h2, m2)
           \<and> the_model h2 self = the_model h self
           \<and> BaseModel_eq xp (the_model h2 m2) (the_model h2 self)"
proof -
  note f = BaseModel_init_fields[OF init]
  let ?d = "model_dict (attributes self)"
  let ?nnd = "map (apsnd (\<lambda>e. mul (mul e (- 1)) (- 1))) ?d"
  from init_from_dict_fields[OF f(3)] have sd: "?d = sort_key (\<lambda>i. name (fst i)) (h0 ! model)"
    by blast
  then have len: "length ?d \<le> 256" using small by simp
  from sd cas2 have "\<forall>i \<in> set ?d. xp (mul (mul (snd i) (- 1)) (- 1)) = xp (snd i)" by simp
  then have "map fst ?nnd = map fst ?d \<and> map (\<lambda>i. xp (snd i)) ?nnd = map (\<lambda>i. xp (snd i)) ?d"
    by (simp add: comp_def)
  then have "eq_loop xp ?nnd ?d" by (subst eq_loop_iff) simp_all
  with len have "BaseModel_eq xp ((attributes self)\<lparr> model_dict := ?nnd \<rparr>) (attributes self)"
    by (simp add: BaseModel_eq_def is_not_def)
  with neg_neg_run[where sep=sep and mul=mul, OF f(1,2,3) dist cas] f(1,2)
  show ?thesis by (simp add: the_model_def nth_append)
qed

lemma distinct_free_symbols: "distinct (free_symbols s)"
  by (induction s) simp_all

lemma distinct_expr_free_symbols: "distinct (expr_free_symbols e)"
  by (induction e) (simp_all add: distinct_free_symbols)

lemma distinct_derivative_atoms: "distinct (derivative_atoms e)"
  by (induction e) simp_all

lemma times_int_free_symbols: "expr_free_symbols (times_int e k) = expr_free_symbols e"
  by (induction e k rule: times_int.induct) (simp_all add: distinct_expr_free_symbols distinct_free_symbols distinct_remdups_id)

lemma times_int_derivative_atoms: "derivative_atoms (times_int e k) = derivative_atoms e"
  by (induction e k rule: times_int.induct)
     (simp_all add: distinct_derivative_atoms distinct_remdups_id)

lemma seperate_symbols_times_int: "seperate_symbols (times_int e k) = seperate_symbols e"
  by (simp add: seperate_symbols_def times_int_free_symbols times_int_derivative_atoms)

lemma large_dict_length: "length large_dict = 257"
  by (simp add: large_dict_def)

lemma large_dict_keys:
  "map fst large_dict = map (\<lambda>i. Variable (replicate (Suc i) CHR ''y'')) [0..<257]"
  by (simp add: large_dict_def comp_def)

lemma large_dict_distinct: "distinct (map fst large_dict)"
  unfolding large_dict_keys by (simp add: distinct_map inj_on_def)

lemma seperate_symbols_a_x:
  "seperate_symbols (Mul (Symbol (Parameter ''a'')) (Symbol (Variable ''x'')))
     = ([Variable ''x''], [Parameter ''a''])"
  by code_simp

lemma large_dict_connectivity:
  "connectivity_mapping seperate_symbols large_dict
     = map (\<lambda>i. (Variable (replicate (Suc i) CHR ''y''), [Variable ''x'', Parameter ''a'']))
         [0..<257]"
  by (simp add: connectivity_mapping_def large_dict_def comp_def seperate_symbols_a_x)

lemma large_dict_init: "\<exists>m. init_from_dict seperate_symbols large_dict = Inr m"
proof (rule init_from_dict_total[OF large_dict_distinct])
  show "acyclic (dependency_graph (connectivity_mapping seperate_symbols large_dict) - Id)"
    unfolding large_dict_connectivity
    by (rule acyclic_rank
          [of _ "\<lambda>s. if s = Variable ''x'' \<or> s = Parameter ''a'' then 0 else 1"])
       (auto simp: dependency_graph_def)
  show "(Variable ''y'', Mul (Symbol (Parameter ''a'')) (Symbol (Variable ''x''))) \<in> set large_dict"
    by (force simp: large_dict_def)
  show "Variable ''x'' \<in> set (fst (seperate_symbols (Mul (Symbol (Parameter ''a'')) (Symbol (Variable ''x''))))
          @ snd (seperate_symbols (Mul (Symbol (Parameter ''a'')) (Symbol (Variable ''x'')))))"
    by (simp add: seperate_symbols_a_x)
  show "Variable ''x'' \<noteq> Variable ''y''" by simp
  show "inj_on name (set (map fst large_dict)
          \<union> set (concat (map snd (connectivity_mapping seperate_symbols large_dict))))"
    unfolding large_dict_connectivity large_dict_keys
    by (auto simp: inj_on_def)
qed

text \<open>
  C9. The claim: for every model, \<open>-(-m) == m\<close>, and \<open>-m\<close> leaves \<open>m\<close> as it was. For
  every model of more than 256 components that the constructor accepts, both negations
  return, the model is left as it was, and the result has the keys of the model, but
  \<open>-(-m) == m\<close> is \<open>False\<close>: \<open>__eq__\<close> compares the two lengths with \<open>is not\<close>.
\<close>

theorem BaseModel_neg_neg_large:
  assumes init: "BaseModel_init sep h0 model = Inr (h, self)"
    and dist: "distinct (map fst (h0 ! model))"
    and cas: "\<forall>e. sep (mul e (- 1)) = sep e"
    and large: "256 < length (h0 ! model)"
  shows "\<exists>h2 m2. neg_neg sep mul h self = Inr (h2, m2)
           \<and> the_model h2 self = the_model h self
           \<and> map fst (model_dict (the_model h2 m2)) = map fst (model_dict (the_model h2 self))
           \<and> \<not> BaseModel_eq xp (the_model h2 m2) (the_model h2 self)"
proof -
  note f = BaseModel_init_fields[OF init]
  let ?d = "model_dict (attributes self)"
  let ?nnd = "map (apsnd (\<lambda>e. mul (mul e (- 1)) (- 1))) ?d"
  from init_from_dict_fields[OF f(3)] have sd: "?d = sort_key (\<lambda>i. name (fst i)) (h0 ! model)"
    by blast
  then have len: "256 < length ?nnd" using large by simp
  have k: "map fst ?nnd = map fst ?d" by (simp add: comp_def)
  from len have "\<not> BaseModel_eq xp ((attributes self)\<lparr> model_dict := ?nnd \<rparr>) (attributes self)"
    by (intro BaseModel_eq_large) simp
  with neg_neg_run[where sep=sep and mul=mul, OF f(1,2,3) dist cas] f(1,2) k
  show ?thesis by (simp add: the_model_def nth_append)
qed

theorem BaseModel_neg_neg_large_witness:
  "\<exists>h self. BaseModel_init seperate_symbols [large_dict] 0 = Inr (h, self)
      \<and> length large_dict = 257
      \<and> (\<exists>h2 m2. neg_neg seperate_symbols times_int h self = Inr (h2, m2)
           \<and> the_model h2 self = the_model h self
           \<and> map fst (model_dict (the_model h2 m2)) = map fst (model_dict (the_model h2 self))
           \<and> \<not> BaseModel_eq expand (the_model h2 m2) (the_model h2 self))"
proof -
  from large_dict_init obtain m where m: "init_from_dict seperate_symbols large_dict = Inr m"
    by blast
  let ?h = "[large_dict, model_dict m]"
  let ?self = "\<lparr> model_dict_ref = 1, attributes = m \<rparr>"
  from m have init: "BaseModel_init seperate_symbols [large_dict] 0 = Inr (?h, ?self)"
    by (simp add: BaseModel_init_def)
  have dist: "distinct (map fst ([large_dict] ! 0))" using large_dict_distinct by simp
  have cas: "\<forall>e. seperate_symbols (times_int e (- 1)) = seperate_symbols e"
    by (simp add: seperate_symbols_times_int)
  have large: "256 < length ([large_dict] ! 0)" by (simp add: large_dict_length)
  from BaseModel_neg_neg_large[where sep=seperate_symbols and mul=times_int and xp=expand,
         OF init dist cas large] init large_dict_length
  show ?thesis by blast
qed

text \<open>For \<open>{y: a*(x + 1)}\<close>, a model of one component, \<open>-(-m) == m\<close> holds.\<close>

lemma neg_neg_product_model:
  "\<exists>h self h2 m2. BaseModel_init seperate_symbols [model_dict product_model] 0 = Inr (h, self)
      \<and> neg_neg seperate_symbols times_int h self = Inr (h2, m2)
      \<and> the_model h2 self = product_model
      \<and> BaseModel_eq expand (the_model h2 m2) (the_model h2 self)"
proof -
  let ?h = "[model_dict product_model, model_dict product_model]"
  let ?self = "\<lparr> model_dict_ref = 1, attributes = product_model \<rparr>"
  have init: "BaseModel_init seperate_symbols [model_dict product_model] 0 = Inr (?h, ?self)"
    by (simp add: BaseModel_init_def product_model_init)
  have dist: "distinct (map fst ([model_dict product_model] ! 0))"
    by (simp add: product_model_def)
  have cas: "\<forall>e. seperate_symbols (times_int e (- 1)) = seperate_symbols e"
    by (simp add: seperate_symbols_times_int)
  have cas2: "\<forall>e \<in> snd ` set ([model_dict product_model] ! 0).
                 expand (times_int (times_int e (- 1)) (- 1)) = expand e"
    by (simp add: product_model_def)
  have small: "length ([model_dict product_model] ! 0) \<le> 256" by (simp add: product_model_def)
  have "the_model ?h ?self = product_model" by (simp add: the_model_def)
  with BaseModel_neg_neg_eq[where sep=seperate_symbols and mul=times_int and xp=expand,
         OF init dist cas cas2 small] init
  show ?thesis by metis
qed

lemma chain_gradient_model_init: "GradientModel_init chain_dict = Some (Inr chain_gradient_model)"
  by code_simp

lemma chain_jacobian_ordered_symbols:
  "ordered_symbols seperate_symbols (jacobian_model chain_gradient_model)
     = Inr [Variable ''x'', Parameter ''a'', Variable ''y'',
            Derivative (Variable ''y'') [Parameter ''a''], Variable ''z'',
            Derivative (Variable ''z'') [Parameter ''a'']]"
  by code_simp

lemma chain_jacobian_connectivity:
  "connectivity_mapping seperate_symbols (model_dict (jacobian_model chain_gradient_model))
     = [(Derivative (Variable ''y'') [Parameter ''a''], [Variable ''x'']),
        (Derivative (Variable ''z'') [Parameter ''a''],
         [Derivative (Variable ''y'') [Parameter ''a''], Variable ''y'']),
        (Variable ''y'', [Variable ''x'', Parameter ''a'']),
        (Variable ''z'', [Variable ''y'', Parameter ''a''])]"
  by code_simp

lemma chain_jacobian_ordered_dependencies:
  "sort_key (\<lambda>arg. (isinstance_Parameter arg, str arg))
     (remdups (fst (seperate_symbols (Symbol (Variable ''x'')))
               @ snd (seperate_symbols (Symbol (Variable ''x'')))))
     = [Variable ''x'']"
  "sort_key (\<lambda>arg. (isinstance_Parameter arg, str arg))
     (remdups (fst (seperate_symbols
                 (Add (Mul (Mul (Integer 2) (Symbol (Variable ''y'')))
                        (Symbol (Derivative (Variable ''y'') [Parameter ''a''])))
                   (Integer 1)))
               @ snd (seperate_symbols
                 (Add (Mul (Mul (Integer 2) (Symbol (Variable ''y'')))
                        (Symbol (Derivative (Variable ''y'') [Parameter ''a''])))
                   (Integer 1)))))
     = [Derivative (Variable ''y'') [Parameter ''a''], Variable ''y'']"
  "sort_key (\<lambda>arg. (isinstance_Parameter arg, str arg))
     (remdups (fst (seperate_symbols (Mul (Symbol (Parameter ''a'')) (Symbol (Variable ''x''))))
               @ snd (seperate_symbols (Mul (Symbol (Parameter ''a'')) (Symbol (Variable ''x''))))))
     = [Variable ''x'', Parameter ''a'']"
  "sort_key (\<lambda>arg. (isinstance_Parameter arg, str arg))
     (remdups (fst (seperate_symbols
                 (Add (Pow (Symbol (Variable ''y'')) 2) (Symbol (Parameter ''a''))))
               @ snd (seperate_symbols
                 (Add (Pow (Symbol (Variable ''y'')) 2) (Symbol (Parameter ''a''))))))
     = [Variable ''y'', Parameter ''a'']"
  by code_simp+

lemma chain_jacobian_numerical_components:
  "numerical_components (jacobian_model chain_gradient_model)
     = [sympy_to_py (Symbol (Variable ''x'')) [Variable ''x''],
        sympy_to_py (Add (Mul (Mul (Integer 2) (Symbol (Variable ''y'')))
                              (Symbol (Derivative (Variable ''y'') [Parameter ''a''])))
                         (Integer 1))
          [Derivative (Variable ''y'') [Parameter ''a''], Variable ''y''],
        sympy_to_py (Mul (Symbol (Parameter ''a'')) (Symbol (Variable ''x'')))
          [Variable ''x'', Parameter ''a''],
        sympy_to_py (Add (Pow (Symbol (Variable ''y'')) 2) (Symbol (Parameter ''a'')))
          [Variable ''y'', Parameter ''a'']]"
  unfolding numerical_components_def chain_gradient_model_def
  by (simp add: Let_def chain_jacobian_ordered_dependencies)

lemma zip_map_left: "zip (map f xs) xs = map (\<lambda>x. (f x, x)) xs"
  by (induction xs) simp_all

lemma times_ones: "length ys = n \<Longrightarrow> map2 (*) ys (replicate n (1::real)) = ys"
  by (induction ys arbitrary: n) auto

lemma times_one: "length ys = Suc 0 \<Longrightarrow> map2 (*) ys [1::real] = ys"
  using times_ones[of ys "Suc 0"] by simp

lemma chain_jacobian_call:
  "eval_components seperate_symbols (jacobian_model chain_gradient_model)
     (numerical_components (jacobian_model chain_gradient_model))
     [Array xs] [(''a'', Scalar a)]
     = Inr [Array xs, Array (map (\<lambda>x. 2 * (a * x) * x + 1) xs),
            Array (map (\<lambda>x. a * x) xs), Array (map (\<lambda>x. (a * x)\<^sup>2 + a) xs)]"
  unfolding eval_components_def chain_jacobian_ordered_symbols chain_jacobian_connectivity
    chain_jacobian_numerical_components
  by (simp add: chain_gradient_model_def bind_def lookup_def lookup_kwargs_def sympy_to_py_def
        zip_map_left comp_def)

lemma chain_jacobian_call_keywords:
  "eval_components seperate_symbols (jacobian_model chain_gradient_model)
     (numerical_components (jacobian_model chain_gradient_model))
     [] [(''x'', Array xs), (''a'', Scalar a)]
     = Inr [Array xs, Array (map (\<lambda>x. 2 * (a * x) * x + 1) xs),
            Array (map (\<lambda>x. a * x) xs), Array (map (\<lambda>x. (a * x)\<^sup>2 + a) xs)]"
  unfolding eval_components_def chain_jacobian_ordered_symbols chain_jacobian_connectivity
    chain_jacobian_numerical_components
  by (simp add: chain_gradient_model_def bind_def lookup_def lookup_kwargs_def sympy_to_py_def
        zip_map_left comp_def)

lemma chain_jacobian_call_scalars:
  "eval_components seperate_symbols (jacobian_model chain_gradient_model)
     (numerical_components (jacobian_model chain_gradient_model))
     [Scalar x, Scalar a] []
     = Inr [Array [x], Array [2 * (a * x) * x + 1], Array [a * x], Array [(a * x)\<^sup>2 + a]]"
  unfolding eval_components_def chain_jacobian_ordered_symbols chain_jacobian_connectivity
    chain_jacobian_numerical_components
  by (simp add: chain_gradient_model_def bind_def lookup_def lookup_kwargs_def sympy_to_py_def)

text \<open>Differentiating the expression of \<open>z\<close> as it stands, with \<open>y\<close> a plain symbol, loses
  the term of the chain rule.\<close>

lemma diff_without_functions:
  "diff (Add (Pow (Symbol (Variable ''y'')) 2) (Symbol (Parameter ''a''))) (Parameter ''a'')
     = Some (Integer 1)"
  by code_simp

text \<open>
  C1. The constructor of \<open>GradientModel\<close> builds, for \<open>{y: a*x, z: y**2 + a}\<close>, the model
  of the Jacobian \<open>{D(y, a): x, D(z, a): 2*y*D(y, a) + 1, y: a*x, z: y**2 + a}\<close>, and
  \<open>eval_jacobian\<close> returns, for every array \<open>xs\<close> of values of \<open>x\<close> and every value of
  \<open>a\<close>, the row \<open>x\<close> for \<open>y\<close> and the row \<open>2*(a*x)*x + 1\<close> for \<open>z\<close>, whether the
  arguments are given by position or by name, as arrays or as scalars.
\<close>

theorem eval_jacobian_chain_rule:
  "GradientModel_init chain_dict = Some (Inr chain_gradient_model)
   \<and> lookup (model_dict (jacobian_model chain_gradient_model))
       (Derivative (Variable ''z'') [Parameter ''a''])
       = Inr (Add (Mul (Mul (Integer 2) (Symbol (Variable ''y'')))
                       (Symbol (Derivative (Variable ''y'') [Parameter ''a''])))
                  (Integer 1))
   \<and> eval_jacobian chain_gradient_model [Array xs] [(''a'', Scalar a)]
       = Inr [[Array xs], [Array (map (\<lambda>x. 2 * (a * x) * x + 1) xs)]]
   \<and> eval_jacobian chain_gradient_model [] [(''x'', Array xs), (''a'', Scalar a)]
       = Inr [[Array xs], [Array (map (\<lambda>x. 2 * (a * x) * x + 1) xs)]]
   \<and> eval_jacobian chain_gradient_model [Scalar x, Scalar a] []
       = Inr [[Array [x]], [Array [2 * (a * x) * x + 1]]]"
proof -
  have 1: "eval_jacobian chain_gradient_model [Array xs] [(''a'', Scalar a)]
       = Inr [[Array xs], [Array (map (\<lambda>x. 2 * (a * x) * x + 1) xs)]]"
    unfolding eval_jacobian_def chain_jacobian_call
    by (simp add: chain_gradient_model_def lookup_def broadcast_arrays_def stack_def
          times_ones times_one)
  have 2: "eval_jacobian chain_gradient_model [] [(''x'', Array xs), (''a'', Scalar a)]
       = Inr [[Array xs], [Array (map (\<lambda>x. 2 * (a * x) * x + 1) xs)]]"
    unfolding eval_jacobian_def chain_jacobian_call_keywords
    by (simp add: chain_gradient_model_def lookup_def broadcast_arrays_def stack_def
          times_ones times_one)
  have 3: "eval_jacobian chain_gradient_model [Scalar x, Scalar a] []
       = Inr [[Array [x]], [Array [2 * (a * x) * x + 1]]]"
    unfolding eval_jacobian_def chain_jacobian_call_scalars
    by (simp add: chain_gradient_model_def lookup_def broadcast_arrays_def stack_def)
  have 4: "lookup (model_dict (jacobian_model chain_gradient_model))
       (Derivative (Variable ''z'') [Parameter ''a''])
       = Inr (Add (Mul (Mul (Integer 2) (Symbol (Variable ''y'')))
                       (Symbol (Derivative (Variable ''y'') [Parameter ''a''])))
                  (Integer 1))"
    by (simp add: chain_gradient_model_def lookup_def)
  from chain_gradient_model_init 1 2 3 4 show ?thesis by simp
qed

theorem eval_jacobian_chain_rule_witness:
  "eval_jacobian chain_gradient_model [Array [1, 2, 3]] [(''a'', Scalar 2)]
     = Inr [[Array [1, 2, 3]], [Array [5, 17, 37]]]"
  using eval_jacobian_chain_rule [of "[1, 2, 3]" 2] by simp

end
